theory Spec2Isabelle
  imports Main
begin

section \<open>Raw storage, element lifetime and the element type\<close>

text \<open>
  \<^verbatim>\<open>vector.h\<close> holds two revisions of the same header one after the other: the first
  (lines 1 to 348) writes every member function out, the second (lines 352 to 690) moves
  the bodies of \<^verbatim>\<open>Emplace\<close> and of copy assignment into the private helpers
  \<^verbatim>\<open>OffsetRight\<close>, \<^verbatim>\<open>OffsetRightNewCapacity\<close> and \<^verbatim>\<open>CopyRhs\<close>, and changes
  \<^verbatim>\<open>EmplaceBack\<close>, \<^verbatim>\<open>Erase\<close> and \<^verbatim>\<open>PopBack\<close>. Where the two revisions differ the
  model has one definition for each (the second revision's carries the suffix 2).

  A slot of a buffer is either uninitialised storage or holds a live object of the element
  type \<^verbatim>\<open>T\<close>. A pointer is the address of an allocation and a slot offset into it; address
  0 is the null pointer. The world holds the allocations, the next fresh address, and
  three counters an instrumented element type would keep: constructor calls, destructor
  calls and copy-constructor calls.
\<close>

datatype 'a slot = Raw | Live 'a

type_synonym ptr = "nat \<times> nat"

record 'a world =
  heap :: "nat \<Rightarrow> 'a slot list"
  next_addr :: nat
  ctors :: nat
  dtors :: nat
  copies :: nat

text \<open>
  The template parameter \<^verbatim>\<open>T\<close> and the host are parameters of the model: the three type
  traits the code tests, which copy-constructor calls throw (by call number and copied
  value), the value a moved-from object is left with, the value of \<^verbatim>\<open>T()\<close>, and the
  requests \<^verbatim>\<open>operator new\<close> refuses. Moves and assignments do not throw (the spec's
  precondition for the paths that use them).
\<close>

record 'a elem_type =
  nothrow_move_constructible :: bool
  copy_constructible :: bool
  nothrow_move_assignable :: bool
  copy_throws :: "nat \<Rightarrow> 'a \<Rightarrow> bool"
  moved_from :: "'a \<Rightarrow> 'a"
  value_init :: 'a
  new_fails :: "nat \<Rightarrow> bool"

datatype exn = bad_alloc | copy_failed

text \<open>
  A call returns a value, throws, or has undefined behaviour (a failed \<^verbatim>\<open>assert\<close>, an
  access outside an allocation, a read, assignment or destruction of an uninitialised slot).
\<close>

datatype ('r, 's) outcome = Returned 'r 's | Thrown exn 's | Undefined

fun and_then :: "('r, 's) outcome \<Rightarrow> ('r \<Rightarrow> 's \<Rightarrow> ('q, 's) outcome) \<Rightarrow> ('q, 's) outcome" where
  "and_then (Returned r s) f = f r s"
| "and_then (Thrown e s) f = Thrown e s"
| "and_then Undefined f = Undefined"

text \<open>Stack unwinding: the destructor of a local runs when an exception passes its scope.\<close>

fun on_throw :: "('r, 's) outcome \<Rightarrow> ('s \<Rightarrow> 's) \<Rightarrow> ('r, 's) outcome" where
  "on_throw (Returned r s) f = Returned r s"
| "on_throw (Thrown e s) f = Thrown e (f s)"
| "on_throw Undefined f = Undefined"

fun from_option :: "'p option \<Rightarrow> ('p \<Rightarrow> ('r, 's) outcome) \<Rightarrow> ('r, 's) outcome" where
  "from_option None f = Undefined"
| "from_option (Some p) f = f p"

subsection \<open>\<^verbatim>\<open>size_t\<close> arithmetic (64 bits, wrapping)\<close>

definition SIZE_MAX :: nat where
  "SIZE_MAX = 2 ^ 64 - 1"

definition size_inc :: "nat \<Rightarrow> nat" where
  "size_inc n = (if n = SIZE_MAX then 0 else n + 1)"

definition size_dec :: "nat \<Rightarrow> nat" where
  "size_dec n = (if n = 0 then SIZE_MAX else n - 1)"

definition size_sub :: "nat \<Rightarrow> nat \<Rightarrow> nat" where
  "size_sub a b = (if b \<le> a then a - b else a + (SIZE_MAX + 1) - b)"

definition size_mul2 :: "nat \<Rightarrow> nat" where
  "size_mul2 n = (n * 2) mod (SIZE_MAX + 1)"

subsection \<open>Pointers and single-object operations\<close>

definition ptr_add :: "ptr \<Rightarrow> nat \<Rightarrow> ptr" where
  "ptr_add p k = (fst p, snd p + k)"

text \<open>A pointer before the start of its array cannot be formed.\<close>

definition ptr_sub :: "ptr \<Rightarrow> nat \<Rightarrow> ptr option" where
  "ptr_sub p k = (if k \<le> snd p then Some (fst p, snd p - k) else None)"

definition cell :: "'a world \<Rightarrow> ptr \<Rightarrow> 'a slot option" where
  "cell w p = (if snd p < length (heap w (fst p)) then Some (heap w (fst p) ! snd p) else None)"

definition store :: "ptr \<Rightarrow> 'a slot \<Rightarrow> 'a world \<Rightarrow> 'a world" where
  "store p s w = w\<lparr>heap := (heap w)(fst p := (heap w (fst p))[snd p := s])\<rparr>"

text \<open>\<^verbatim>\<open>*p\<close> read as a value: the slot must hold a live object.\<close>

definition deref :: "'a world \<Rightarrow> ptr \<Rightarrow> 'a option" where
  "deref w p = (case cell w p of Some (Live v) \<Rightarrow> Some v | _ \<Rightarrow> None)"

text \<open>
  \<^verbatim>\<open>new (p) T(...)\<close> with a constructor that does not throw and makes the value \<open>v\<close>.
  Placement new does not look at what the storage held: over a live object it replaces
  the object without running its destructor.
\<close>

definition construct_at :: "ptr \<Rightarrow> 'a \<Rightarrow> 'a world \<Rightarrow> (unit, 'a world) outcome" where
  "construct_at p v w =
     (case cell w p of
        None \<Rightarrow> Undefined
      | Some _ \<Rightarrow> Returned () ((store p (Live v) w)\<lparr>ctors := ctors w + 1\<rparr>))"

definition destroy_at :: "ptr \<Rightarrow> 'a world \<Rightarrow> (unit, 'a world) outcome" where
  "destroy_at p w =
     (case cell w p of
        Some (Live _) \<Rightarrow> Returned () ((store p Raw w)\<lparr>dtors := dtors w + 1\<rparr>)
      | _ \<Rightarrow> Undefined)"

text \<open>\<^verbatim>\<open>*p = v\<close>: assignment needs a live object on its left.\<close>

definition assign :: "ptr \<Rightarrow> 'a \<Rightarrow> 'a world \<Rightarrow> (unit, 'a world) outcome" where
  "assign p v w =
     (case cell w p of
        Some (Live _) \<Rightarrow> Returned () (store p (Live v) w)
      | _ \<Rightarrow> Undefined)"

text \<open>The copy constructor: call number \<open>copies w\<close>, which may be one that throws.\<close>

definition copy_construct_value :: "'a elem_type \<Rightarrow> ptr \<Rightarrow> 'a \<Rightarrow> 'a world \<Rightarrow> (unit, 'a world) outcome" where
  "copy_construct_value env p v w =
     (if copy_throws env (copies w) v then Thrown copy_failed (w\<lparr>copies := copies w + 1\<rparr>)
      else construct_at p v (w\<lparr>copies := copies w + 1\<rparr>))"

text \<open>\<^verbatim>\<open>new (p) T(*q)\<close>\<close>

definition copy_construct :: "'a elem_type \<Rightarrow> ptr \<Rightarrow> ptr \<Rightarrow> 'a world \<Rightarrow> (unit, 'a world) outcome" where
  "copy_construct env p q w = from_option (deref w q) (\<lambda>v. copy_construct_value env p v w)"

text \<open>\<^verbatim>\<open>new (p) T(std::move(*q))\<close>\<close>

definition move_construct :: "'a elem_type \<Rightarrow> ptr \<Rightarrow> ptr \<Rightarrow> 'a world \<Rightarrow> (unit, 'a world) outcome" where
  "move_construct env p q w =
     from_option (deref w q) (\<lambda>v.
       and_then (construct_at p v w) (\<lambda>_ w1. Returned () (store q (Live (moved_from env v)) w1)))"

text \<open>\<^verbatim>\<open>*p = *q\<close>\<close>

definition copy_assign :: "'a elem_type \<Rightarrow> ptr \<Rightarrow> ptr \<Rightarrow> 'a world \<Rightarrow> (unit, 'a world) outcome" where
  "copy_assign env p q w = from_option (deref w q) (\<lambda>v. assign p v w)"

text \<open>\<^verbatim>\<open>*p = std::move(*q)\<close>\<close>

definition move_assign :: "'a elem_type \<Rightarrow> ptr \<Rightarrow> ptr \<Rightarrow> 'a world \<Rightarrow> (unit, 'a world) outcome" where
  "move_assign env p q w =
     from_option (deref w q) (\<lambda>v.
       and_then (assign p v w) (\<lambda>_ w1. Returned () (store q (Live (moved_from env v)) w1)))"

text \<open>
  The arguments of \<^verbatim>\<open>T(std::forward<Args>(args)...)\<close> as the container's callers pass
  them: an lvalue of type \<^verbatim>\<open>T\<close> (the copy constructor runs) or an rvalue (the move
  constructor runs).
\<close>

datatype 'a args = Lvalue 'a | Rvalue 'a

fun arg_value :: "'a args \<Rightarrow> 'a" where
  "arg_value (Lvalue v) = v"
| "arg_value (Rvalue v) = v"

text \<open>\<^verbatim>\<open>new (p) T(std::forward<Args>(args)...)\<close>\<close>

fun construct :: "'a elem_type \<Rightarrow> ptr \<Rightarrow> 'a args \<Rightarrow> 'a world \<Rightarrow> (unit, 'a world) outcome" where
  "construct env p (Lvalue v) w = copy_construct_value env p v w"
| "construct env p (Rvalue v) w = construct_at p v w"

text \<open>\<^verbatim>\<open>T temp(std::forward<Args>(args)...)\<close>: a local object, outside every buffer.\<close>

fun construct_temp :: "'a elem_type \<Rightarrow> 'a args \<Rightarrow> 'a world \<Rightarrow> ('a, 'a world) outcome" where
  "construct_temp env (Lvalue v) w =
     (if copy_throws env (copies w) v then Thrown copy_failed (w\<lparr>copies := copies w + 1\<rparr>)
      else Returned v (w\<lparr>copies := copies w + 1, ctors := ctors w + 1\<rparr>))"
| "construct_temp env (Rvalue v) w = Returned v (w\<lparr>ctors := ctors w + 1\<rparr>)"

definition destroy_temp :: "'a world \<Rightarrow> 'a world" where
  "destroy_temp w = w\<lparr>dtors := dtors w + 1\<rparr>"

subsection \<open>The standard algorithms the container calls\<close>

text \<open>
  \<^verbatim>\<open>std::uninitialized_copy_n\<close>: when a copy throws, the objects it has constructed are
  destroyed (in an unspecified order) and the exception goes on.
\<close>

fun uninitialized_copy_n :: "'a elem_type \<Rightarrow> ptr \<Rightarrow> nat \<Rightarrow> ptr \<Rightarrow> 'a world \<Rightarrow> (unit, 'a world) outcome" where
  "uninitialized_copy_n env first 0 result w = Returned () w"
| "uninitialized_copy_n env first (Suc n) result w =
     and_then (copy_construct env result first w) (\<lambda>_ w1.
       case uninitialized_copy_n env (ptr_add first 1) n (ptr_add result 1) w1 of
         Thrown e w2 \<Rightarrow> and_then (destroy_at result w2) (\<lambda>_ w3. Thrown e w3)
       | Returned r w2 \<Rightarrow> Returned r w2
       | Undefined \<Rightarrow> Undefined)"

fun uninitialized_move_n :: "'a elem_type \<Rightarrow> ptr \<Rightarrow> nat \<Rightarrow> ptr \<Rightarrow> 'a world \<Rightarrow> (unit, 'a world) outcome" where
  "uninitialized_move_n env first 0 result w = Returned () w"
| "uninitialized_move_n env first (Suc n) result w =
     and_then (move_construct env result first w) (\<lambda>_ w1.
       uninitialized_move_n env (ptr_add first 1) n (ptr_add result 1) w1)"

fun uninitialized_value_construct_n :: "'a elem_type \<Rightarrow> ptr \<Rightarrow> nat \<Rightarrow> 'a world \<Rightarrow> (unit, 'a world) outcome" where
  "uninitialized_value_construct_n env first 0 w = Returned () w"
| "uninitialized_value_construct_n env first (Suc n) w =
     and_then (construct_at first (value_init env) w) (\<lambda>_ w1.
       uninitialized_value_construct_n env (ptr_add first 1) n w1)"

fun destroy_n :: "ptr \<Rightarrow> nat \<Rightarrow> 'a world \<Rightarrow> (unit, 'a world) outcome" where
  "destroy_n first 0 w = Returned () w"
| "destroy_n first (Suc n) w =
     and_then (destroy_at first w) (\<lambda>_ w1. destroy_n (ptr_add first 1) n w1)"

fun copy_n :: "'a elem_type \<Rightarrow> ptr \<Rightarrow> nat \<Rightarrow> ptr \<Rightarrow> 'a world \<Rightarrow> (unit, 'a world) outcome" where
  "copy_n env first 0 result w = Returned () w"
| "copy_n env first (Suc n) result w =
     and_then (copy_assign env result first w) (\<lambda>_ w1.
       copy_n env (ptr_add first 1) n (ptr_add result 1) w1)"

text \<open>
  \<^verbatim>\<open>std::move_backward(first, last, d_last)\<close>:
  \<^verbatim>\<open>while (first != last) *(--d_last) = std::move(*(--last));\<close>
\<close>

function move_backward :: "'a elem_type \<Rightarrow> ptr \<Rightarrow> ptr \<Rightarrow> ptr \<Rightarrow> 'a world \<Rightarrow> (unit, 'a world) outcome" where
  "move_backward env first lst d_last w =
     (if first = lst then Returned () w
      else if snd lst = 0 \<or> snd d_last = 0 then Undefined
      else and_then (move_assign env (fst d_last, snd d_last - 1) (fst lst, snd lst - 1) w) (\<lambda>_ w1.
             move_backward env first (fst lst, snd lst - 1) (fst d_last, snd d_last - 1) w1))"
  by pat_completeness auto
termination
  by (relation "measure (\<lambda>(env, first, lst, d_last, w). snd lst)") auto

section \<open>\<^verbatim>\<open>RawMemory\<close>\<close>

text \<open>The members \<^verbatim>\<open>buffer_\<close> and \<^verbatim>\<open>capacity_\<close> (a name cannot end in an underscore here).\<close>

record RawMemory =
  m_buffer :: nat
  m_capacity :: nat

text \<open>\<^verbatim>\<open>Allocate\<close>: no allocation for \<open>n = 0\<close>; otherwise a fresh block of \<open>n\<close> uninitialised slots.\<close>

definition Allocate :: "'a elem_type \<Rightarrow> nat \<Rightarrow> 'a world \<Rightarrow> (nat, 'a world) outcome" where
  "Allocate env n w =
     (if n \<noteq> 0 then
        (if new_fails env n then Thrown bad_alloc w
         else Returned (next_addr w)
                (w\<lparr>heap := (heap w)(next_addr w := replicate n Raw), next_addr := next_addr w + 1\<rparr>))
      else Returned 0 w)"

text \<open>\<^verbatim>\<open>operator delete\<close>: nothing for the null pointer.\<close>

definition Deallocate :: "nat \<Rightarrow> 'a world \<Rightarrow> 'a world" where
  "Deallocate buf w = (if buf = 0 then w else w\<lparr>heap := (heap w)(buf := [])\<rparr>)"

definition RawMemory_default :: RawMemory where
  "RawMemory_default = \<lparr>m_buffer = 0, m_capacity = 0\<rparr>"

definition RawMemory_ctor :: "'a elem_type \<Rightarrow> nat \<Rightarrow> 'a world \<Rightarrow> (RawMemory, 'a world) outcome" where
  "RawMemory_ctor env capacity w =
     and_then (Allocate env capacity w) (\<lambda>b w1. Returned \<lparr>m_buffer = b, m_capacity = capacity\<rparr> w1)"

text \<open>The move constructor: the new object, and what is left of \<open>other\<close>.\<close>

definition RawMemory_move :: "RawMemory \<Rightarrow> RawMemory \<times> RawMemory" where
  "RawMemory_move other =
     (\<lparr>m_buffer = m_buffer other, m_capacity = m_capacity other\<rparr>, other\<lparr>m_buffer := 0, m_capacity := 0\<rparr>)"

definition RawMemory_dtor :: "RawMemory \<Rightarrow> 'a world \<Rightarrow> 'a world" where
  "RawMemory_dtor m w = Deallocate (m_buffer m) w"

text \<open>\<^verbatim>\<open>operator+\<close> with its \<^verbatim>\<open>assert(offset <= capacity_)\<close>.\<close>

definition RawMemory_plus :: "RawMemory \<Rightarrow> nat \<Rightarrow> ptr option" where
  "RawMemory_plus m offset = (if offset \<le> m_capacity m then Some (m_buffer m, offset) else None)"

text \<open>\<^verbatim>\<open>operator[]\<close> with its \<^verbatim>\<open>assert(index < capacity_)\<close>.\<close>

definition RawMemory_index :: "RawMemory \<Rightarrow> nat \<Rightarrow> ptr option" where
  "RawMemory_index m index = (if index < m_capacity m then Some (m_buffer m, index) else None)"

definition RawMemory_Swap :: "RawMemory \<Rightarrow> RawMemory \<Rightarrow> RawMemory \<times> RawMemory" where
  "RawMemory_Swap m other =
     (m\<lparr>m_buffer := m_buffer other, m_capacity := m_capacity other\<rparr>,
      other\<lparr>m_buffer := m_buffer m, m_capacity := m_capacity m\<rparr>)"

definition GetAddress :: "RawMemory \<Rightarrow> ptr" where
  "GetAddress m = (m_buffer m, 0)"

section \<open>\<^verbatim>\<open>Vector\<close>\<close>

text \<open>
  A member function takes the object it is called on and the world, and returns its result
  with the object as it leaves it. Every member function writes \<^verbatim>\<open>data_\<close> and
  \<^verbatim>\<open>size_\<close> only after its last step that can throw, so where it throws the caller's
  object has the fields it had, and \<open>Thrown\<close> carries the world alone.
\<close>

text \<open>The members \<^verbatim>\<open>data_\<close> and \<^verbatim>\<open>size_\<close>.\<close>

record Vector =
  m_data :: RawMemory
  m_size :: nat

definition transfer_safe :: "'a elem_type \<Rightarrow> bool" where
  "transfer_safe env \<longleftrightarrow> nothrow_move_constructible env \<or> \<not> copy_constructible env"

definition Vector_default :: Vector where
  "Vector_default = \<lparr>m_data = RawMemory_default, m_size = 0\<rparr>"

definition Size :: "Vector \<Rightarrow> nat" where
  "Size v = m_size v"

definition Capacity :: "Vector \<Rightarrow> nat" where
  "Capacity v = m_capacity (m_data v)"

definition Vector_begin :: "Vector \<Rightarrow> ptr" where
  "Vector_begin v = GetAddress (m_data v)"

definition Vector_end :: "Vector \<Rightarrow> ptr option" where
  "Vector_end v = RawMemory_plus (m_data v) (m_size v)"

text \<open>\<^verbatim>\<open>explicit Vector(size_t size)\<close>\<close>

definition Vector_sized :: "'a elem_type \<Rightarrow> nat \<Rightarrow> 'a world \<Rightarrow> (Vector, 'a world) outcome" where
  "Vector_sized env n w =
     and_then (RawMemory_ctor env n w) (\<lambda>d w1.
       and_then (on_throw (uninitialized_value_construct_n env (GetAddress d) n w1)
                   (RawMemory_dtor d)) (\<lambda>_ w2.
         Returned \<lparr>m_data = d, m_size = n\<rparr> w2))"

text \<open>\<^verbatim>\<open>Vector(const Vector& other)\<close>: when a copy throws, the member \<^verbatim>\<open>data_\<close> is destroyed.\<close>

definition Vector_copy :: "'a elem_type \<Rightarrow> Vector \<Rightarrow> 'a world \<Rightarrow> (Vector, 'a world) outcome" where
  "Vector_copy env other w =
     and_then (RawMemory_ctor env (m_size other) w) (\<lambda>d w1.
       and_then (on_throw (uninitialized_copy_n env (GetAddress (m_data other)) (m_size other) (GetAddress d) w1)
                   (RawMemory_dtor d)) (\<lambda>_ w2.
         Returned \<lparr>m_data = d, m_size = m_size other\<rparr> w2))"

text \<open>\<^verbatim>\<open>Vector(Vector&& other) noexcept\<close>: the new object, and what is left of \<open>other\<close>.\<close>

definition Vector_move :: "Vector \<Rightarrow> 'a world \<Rightarrow> (Vector \<times> Vector, 'a world) outcome" where
  "Vector_move other w =
     (let (d, other_data) = RawMemory_move (m_data other) in
      Returned (\<lparr>m_data = d, m_size = m_size other\<rparr>, other\<lparr>m_data := other_data, m_size := 0\<rparr>) w)"

text \<open>\<^verbatim>\<open>~Vector()\<close>, and then the destructor of the member \<^verbatim>\<open>data_\<close>.\<close>

definition Vector_dtor :: "Vector \<Rightarrow> 'a world \<Rightarrow> (unit, 'a world) outcome" where
  "Vector_dtor v w =
     and_then (destroy_n (GetAddress (m_data v)) (m_size v) w) (\<lambda>_ w1.
       Returned () (RawMemory_dtor (m_data v) w1))"

text \<open>\<^verbatim>\<open>Swap\<close>: this object and \<open>other\<close>, as the call leaves them.\<close>

definition Swap :: "Vector \<Rightarrow> Vector \<Rightarrow> 'a world \<Rightarrow> (Vector \<times> Vector, 'a world) outcome" where
  "Swap this other w =
     (let (d, other_data) = RawMemory_Swap (m_data this) (m_data other) in
      Returned (this\<lparr>m_data := d, m_size := m_size other\<rparr>,
                other\<lparr>m_data := other_data, m_size := m_size this\<rparr>) w)"

text \<open>
  \<^verbatim>\<open>CopyRhs\<close> (second revision, lines 626 to 636); the first revision has the same
  statements inside \<^verbatim>\<open>operator=\<close> (lines 131 to 139).
\<close>

definition CopyRhs :: "'a elem_type \<Rightarrow> Vector \<Rightarrow> Vector \<Rightarrow> 'a world \<Rightarrow> (Vector, 'a world) outcome" where
  "CopyRhs env this rhs w =
     (let copy_count = min (m_size this) (m_size rhs) in
      and_then (copy_n env (GetAddress (m_data rhs)) copy_count (GetAddress (m_data this)) w) (\<lambda>_ w1.
        and_then
          (if Size this < Size rhs then
             from_option (RawMemory_plus (m_data rhs) (m_size this)) (\<lambda>src.
               from_option (RawMemory_plus (m_data this) (m_size this)) (\<lambda>dst.
                 uninitialized_copy_n env src (size_sub (m_size rhs) (m_size this)) dst w1))
           else destroy_n (ptr_add (GetAddress (m_data this)) (Size rhs))
                  (size_sub (m_size this) (Size rhs)) w1) (\<lambda>_ w2.
          Returned (this\<lparr>m_size := Size rhs\<rparr>) w2)))"

text \<open>
  \<^verbatim>\<open>operator=(const Vector& rhs)\<close> for \<^verbatim>\<open>this != &rhs\<close> (for \<^verbatim>\<open>this == &rhs\<close> it does
  nothing). The local \<^verbatim>\<open>rhs_copy\<close> is destroyed when its block ends.
\<close>

definition assign_copy :: "'a elem_type \<Rightarrow> Vector \<Rightarrow> Vector \<Rightarrow> 'a world \<Rightarrow> (Vector, 'a world) outcome" where
  "assign_copy env this rhs w =
     (if m_size rhs > m_capacity (m_data this) then
        and_then (Vector_copy env rhs w) (\<lambda>rhs_copy w1.
          and_then (Swap this rhs_copy w1) (\<lambda>(this1, rhs_copy1) w2.
            and_then (Vector_dtor rhs_copy1 w2) (\<lambda>_ w3. Returned this1 w3)))
      else CopyRhs env this rhs w)"

text \<open>\<^verbatim>\<open>operator=(Vector&& rhs) noexcept\<close> for \<^verbatim>\<open>this != &rhs\<close>: this object and \<open>rhs\<close>.\<close>

definition assign_move :: "Vector \<Rightarrow> Vector \<Rightarrow> 'a world \<Rightarrow> (Vector \<times> Vector, 'a world) outcome" where
  "assign_move this rhs w = Swap this rhs w"


text \<open>
  The two loops of \<^verbatim>\<open>Resize\<close> (lines 198 to 205):
  \<^verbatim>\<open>for (size_t i = 0; i < size_; i++) new (new_data.GetAddress() + i) T(std::move(data_[i]))\<close>,
  and the same with a copy. \<open>k\<close> is \<open>m_size - i\<close>, the iterations left.
\<close>

fun Resize_move_loop :: "'a elem_type \<Rightarrow> RawMemory \<Rightarrow> RawMemory \<Rightarrow> nat \<Rightarrow> nat \<Rightarrow> 'a world \<Rightarrow> (unit, 'a world) outcome" where
  "Resize_move_loop env d new_data i 0 w = Returned () w"
| "Resize_move_loop env d new_data i (Suc k) w =
     from_option (RawMemory_index d i) (\<lambda>q.
       and_then (move_construct env (ptr_add (GetAddress new_data) i) q w) (\<lambda>_ w1.
         Resize_move_loop env d new_data (i + 1) k w1))"

fun Resize_copy_loop :: "'a elem_type \<Rightarrow> RawMemory \<Rightarrow> RawMemory \<Rightarrow> nat \<Rightarrow> nat \<Rightarrow> 'a world \<Rightarrow> (unit, 'a world) outcome" where
  "Resize_copy_loop env d new_data i 0 w = Returned () w"
| "Resize_copy_loop env d new_data i (Suc k) w =
     from_option (RawMemory_index d i) (\<lambda>q.
       and_then (copy_construct env (ptr_add (GetAddress new_data) i) q w) (\<lambda>_ w1.
         Resize_copy_loop env d new_data (i + 1) k w1))"

text \<open>\<^verbatim>\<open>Resize\<close> (first revision, lines 189 to 217)\<close>

definition Resize :: "'a elem_type \<Rightarrow> nat \<Rightarrow> Vector \<Rightarrow> 'a world \<Rightarrow> (Vector, 'a world) outcome" where
  "Resize env new_size this w =
     (if m_size this > new_size then
        and_then (destroy_n (ptr_add (GetAddress (m_data this)) new_size)
                    (size_sub (m_size this) new_size) w) (\<lambda>_ w1.
          Returned (this\<lparr>m_size := new_size\<rparr>) w1)
      else if new_size > Capacity this then
        and_then (RawMemory_ctor env new_size w) (\<lambda>new_data w1.
          and_then
            (on_throw
               (and_then
                  (if transfer_safe env
                   then Resize_move_loop env (m_data this) new_data 0 (m_size this) w1
                   else Resize_copy_loop env (m_data this) new_data 0 (m_size this) w1) (\<lambda>_ w2.
                  uninitialized_value_construct_n env (ptr_add (GetAddress new_data) (m_size this))
                    (size_sub new_size (m_size this)) w2))
               (RawMemory_dtor new_data)) (\<lambda>_ w3.
            let (d, new_data1) = RawMemory_Swap (m_data this) new_data in
            and_then (destroy_n (GetAddress new_data1) (m_size this) w3) (\<lambda>_ w4.
              Returned (this\<lparr>m_data := d, m_size := new_size\<rparr>) (RawMemory_dtor new_data1 w4))))
      else
        and_then (uninitialized_value_construct_n env (ptr_add (GetAddress (m_data this)) (m_size this))
                    (size_sub new_size (m_size this)) w) (\<lambda>_ w1.
          Returned (this\<lparr>m_size := new_size\<rparr>) w1))"

text \<open>
  \<^verbatim>\<open>EmplaceBack\<close> (first revision, lines 227 to 248). It returns a reference to the new
  element, here the pointer to it.
\<close>

definition EmplaceBack :: "'a elem_type \<Rightarrow> 'a args \<Rightarrow> Vector \<Rightarrow> 'a world \<Rightarrow> (ptr \<times> Vector, 'a world) outcome" where
  "EmplaceBack env args this w =
     (if m_size this < Capacity this then
        from_option (RawMemory_plus (m_data this) (m_size this)) (\<lambda>p.
          and_then (construct env p args w) (\<lambda>_ w1.
            let this1 = this\<lparr>m_size := size_inc (m_size this)\<rparr> in
            from_option (RawMemory_plus (m_data this1) (size_sub (m_size this1) 1)) (\<lambda>r.
              Returned (r, this1) w1)))
      else
        let new_capacity = (if m_size this = 0 then 1 else size_mul2 (m_size this)) in
        and_then (RawMemory_ctor env new_capacity w) (\<lambda>new_data w1.
          and_then
            (on_throw
               (from_option (RawMemory_plus new_data (m_size this)) (\<lambda>p.
                  and_then (construct env p args w1) (\<lambda>_ w2.
                    if transfer_safe env
                    then uninitialized_move_n env (GetAddress (m_data this)) (m_size this) (GetAddress new_data) w2
                    else uninitialized_copy_n env (GetAddress (m_data this)) (m_size this) (GetAddress new_data) w2)))
               (RawMemory_dtor new_data)) (\<lambda>_ w3.
            let (d, new_data1) = RawMemory_Swap (m_data this) new_data in
            and_then (destroy_n (GetAddress new_data1) (m_size this) w3) (\<lambda>_ w4.
              let this1 = this\<lparr>m_data := d, m_size := size_inc (m_size this)\<rparr> in
              from_option (RawMemory_plus (m_data this1) (size_sub (m_size this1) 1)) (\<lambda>r.
                Returned (r, this1) (RawMemory_dtor new_data1 w4))))))"

text \<open>\<^verbatim>\<open>PushBack(const T&)\<close> passes an lvalue on, \<^verbatim>\<open>PushBack(T&&)\<close> an rvalue; both return nothing.\<close>

definition PushBack :: "'a elem_type \<Rightarrow> 'a args \<Rightarrow> Vector \<Rightarrow> 'a world \<Rightarrow> (Vector, 'a world) outcome" where
  "PushBack env v this w = and_then (EmplaceBack env v this w) (\<lambda>(r, this1) w1. Returned this1 w1)"

text \<open>
  \<^verbatim>\<open>OffsetRight\<close> (second revision, lines 650 to 666); the first revision has the same
  statements inside \<^verbatim>\<open>Emplace\<close> (lines 277 to 293). The local \<^verbatim>\<open>temp\<close> is destroyed
  when the function returns.
\<close>

definition OffsetRight :: "'a elem_type \<Rightarrow> ptr \<Rightarrow> 'a args \<Rightarrow> Vector \<Rightarrow> 'a world \<Rightarrow> (Vector, 'a world) outcome" where
  "OffsetRight env pos args this w =
     and_then (construct_temp env args w) (\<lambda>temp w1.
       from_option (Vector_end this) (\<lambda>e.
         from_option (ptr_sub e 1) (\<lambda>pos_end.
           if transfer_safe env then
             and_then (uninitialized_move_n env pos_end 1 e w1) (\<lambda>_ w2.
               and_then (move_backward env pos pos_end e w2) (\<lambda>_ w3.
                 and_then (assign pos temp w3) (\<lambda>_ w4.
                   Returned (this\<lparr>m_size := size_inc (m_size this)\<rparr>) (destroy_temp w4))))
           else
             and_then (move_assign env e pos_end w1) (\<lambda>_ w2.
               and_then (move_backward env pos pos_end e w2) (\<lambda>_ w3.
                 and_then (construct_at pos temp w3) (\<lambda>_ w4.
                   Returned (this\<lparr>m_size := size_inc (m_size this)\<rparr>) (destroy_temp w4)))))))"

text \<open>
  \<^verbatim>\<open>OffsetRightNewCapacity\<close> (second revision, lines 669 to 685); the first revision has
  the same statements inside \<^verbatim>\<open>Emplace\<close> (lines 297 to 311). \<^verbatim>\<open>pos - begin()\<close> is the
  offset of \<open>pos\<close>; the count \<^verbatim>\<open>end() - pos\<close> is signed, and the standard algorithms do
  nothing for a count below 1. The result is \<^verbatim>\<open>pos - new_data.GetAddress()\<close>, taken
  after the swap, when \<^verbatim>\<open>new_data\<close> holds the old buffer.
\<close>

definition OffsetRightNewCapacity :: "'a elem_type \<Rightarrow> ptr \<Rightarrow> 'a args \<Rightarrow> Vector \<Rightarrow> 'a world \<Rightarrow> (nat \<times> Vector, 'a world) outcome" where
  "OffsetRightNewCapacity env pos args this w =
     (let new_capacity = (if m_size this = 0 then 1 else size_mul2 (m_size this)) in
      and_then (RawMemory_ctor env new_capacity w) (\<lambda>new_data w1.
        and_then
          (on_throw
             (from_option (RawMemory_plus new_data (snd pos)) (\<lambda>p.
                from_option (Vector_end this) (\<lambda>e.
                  and_then (construct env p args w1) (\<lambda>_ w2.
                    if transfer_safe env then
                      and_then (uninitialized_move_n env (GetAddress (m_data this)) (snd pos)
                                  (GetAddress new_data) w2) (\<lambda>_ w3.
                        uninitialized_move_n env (ptr_add (GetAddress (m_data this)) (snd pos))
                          (snd e - snd pos) (ptr_add (GetAddress new_data) (snd pos + 1)) w3)
                    else
                      and_then (uninitialized_copy_n env (GetAddress (m_data this)) (snd pos)
                                  (GetAddress new_data) w2) (\<lambda>_ w3.
                        uninitialized_copy_n env (ptr_add (GetAddress (m_data this)) (snd pos))
                          (snd e - snd pos) (ptr_add (GetAddress new_data) (snd pos + 1)) w3)))))
             (RawMemory_dtor new_data)) (\<lambda>_ w4.
          let (d, new_data1) = RawMemory_Swap (m_data this) new_data in
          and_then (destroy_n (GetAddress new_data1) (m_size this) w4) (\<lambda>_ w5.
            Returned (snd pos - snd (GetAddress new_data1),
                      this\<lparr>m_data := d, m_size := size_inc (m_size this)\<rparr>)
              (RawMemory_dtor new_data1 w5)))))"

text \<open>
  \<^verbatim>\<open>Emplace\<close> (first revision, lines 269 to 313). A position is a pointer into this
  vector's buffer: comparing it with, or subtracting it from, a pointer into another
  allocation is undefined.
\<close>

definition Emplace :: "'a elem_type \<Rightarrow> ptr \<Rightarrow> 'a args \<Rightarrow> Vector \<Rightarrow> 'a world \<Rightarrow> (ptr \<times> Vector, 'a world) outcome" where
  "Emplace env pos args this w =
     (if fst pos \<noteq> m_buffer (m_data this) then Undefined
      else if m_size this < Capacity this then
        from_option (Vector_end this) (\<lambda>e.
          if pos = e then
            and_then (construct env e args w) (\<lambda>_ w1.
              Returned (pos, this\<lparr>m_size := size_inc (m_size this)\<rparr>) w1)
          else
            and_then (OffsetRight env pos args this w) (\<lambda>this1 w1. Returned (pos, this1) w1))
      else
        and_then (OffsetRightNewCapacity env pos args this w) (\<lambda>(offset, this1) w1.
          from_option (RawMemory_plus (m_data this1) offset) (\<lambda>r. Returned (r, this1) w1)))"

text \<open>\<^verbatim>\<open>Insert(pos, const T&)\<close> passes an lvalue on, \<^verbatim>\<open>Insert(pos, T&&)\<close> an rvalue.\<close>

definition Insert :: "'a elem_type \<Rightarrow> ptr \<Rightarrow> 'a args \<Rightarrow> Vector \<Rightarrow> 'a world \<Rightarrow> (ptr \<times> Vector, 'a world) outcome" where
  "Insert env pos v this w = Emplace env pos v this w"

text \<open>
  \<^verbatim>\<open>Emplace\<close> (second revision, lines 576 to 594): it starts with
  \<^verbatim>\<open>assert(pos >= begin() && pos <= end())\<close> and hands \<^verbatim>\<open>args...\<close> to the helpers by
  name, that is as lvalues.
\<close>

definition as_lvalue :: "'a args \<Rightarrow> 'a args" where
  "as_lvalue a = Lvalue (arg_value a)"

definition Emplace2 :: "'a elem_type \<Rightarrow> ptr \<Rightarrow> 'a args \<Rightarrow> Vector \<Rightarrow> 'a world \<Rightarrow> (ptr \<times> Vector, 'a world) outcome" where
  "Emplace2 env pos args this w =
     from_option (Vector_end this) (\<lambda>e.
       if fst pos \<noteq> m_buffer (m_data this) \<or> \<not> snd pos \<le> snd e then Undefined
       else if m_size this < Capacity this then
         (if pos = e then
            and_then (construct env e args w) (\<lambda>_ w1.
              Returned (pos, this\<lparr>m_size := size_inc (m_size this)\<rparr>) w1)
          else
            and_then (OffsetRight env pos (as_lvalue args) this w) (\<lambda>this1 w1. Returned (pos, this1) w1))
       else
         and_then (OffsetRightNewCapacity env pos (as_lvalue args) this w) (\<lambda>(offset, this1) w1.
           from_option (RawMemory_plus (m_data this1) offset) (\<lambda>r. Returned (r, this1) w1)))"

text \<open>\<^verbatim>\<open>EmplaceBack\<close> (second revision, lines 552 to 555): \<^verbatim>\<open>return *(Emplace(end(), args...))\<close>\<close>

definition EmplaceBack2 :: "'a elem_type \<Rightarrow> 'a args \<Rightarrow> Vector \<Rightarrow> 'a world \<Rightarrow> (ptr \<times> Vector, 'a world) outcome" where
  "EmplaceBack2 env args this w =
     from_option (Vector_end this) (\<lambda>e. Emplace2 env e (as_lvalue args) this w)"

text \<open>
  The loops of \<^verbatim>\<open>Erase\<close> (first revision, lines 316 to 318 and 321 to 323):
  \<^verbatim>\<open>for (iterator i = pos; i != stop; i++) *(i) = std::move(*(i + 1))\<close>, and the same
  with a copy assignment. An iteration whose \<^verbatim>\<open>i + 1\<close> is not a slot of the buffer
  (\<open>limit\<close> is its capacity) reads outside the allocation.
\<close>

function Erase_move_loop :: "'a elem_type \<Rightarrow> nat \<Rightarrow> ptr \<Rightarrow> ptr \<Rightarrow> 'a world \<Rightarrow> (unit, 'a world) outcome" where
  "Erase_move_loop env limit i stop w =
     (if i = stop then Returned () w
      else if limit \<le> snd i + 1 then Undefined
      else and_then (move_assign env i (ptr_add i 1) w) (\<lambda>_ w1.
             Erase_move_loop env limit (ptr_add i 1) stop w1))"
  by pat_completeness auto
termination
  by (relation "measure (\<lambda>(env, limit, i, stop, w). limit - snd i)") (auto simp: ptr_add_def)

function Erase_copy_loop :: "'a elem_type \<Rightarrow> nat \<Rightarrow> ptr \<Rightarrow> ptr \<Rightarrow> 'a world \<Rightarrow> (unit, 'a world) outcome" where
  "Erase_copy_loop env limit i stop w =
     (if i = stop then Returned () w
      else if limit \<le> snd i + 1 then Undefined
      else and_then (copy_assign env i (ptr_add i 1) w) (\<lambda>_ w1.
             Erase_copy_loop env limit (ptr_add i 1) stop w1))"
  by pat_completeness auto
termination
  by (relation "measure (\<lambda>(env, limit, i, stop, w). limit - snd i)") (auto simp: ptr_add_def)

text \<open>
  \<^verbatim>\<open>Erase\<close> (first revision, lines 314 to 328). The loops stop at
  \<^verbatim>\<open>end() - (pos - begin() + 1)\<close>.
\<close>

definition Erase :: "'a elem_type \<Rightarrow> ptr \<Rightarrow> Vector \<Rightarrow> 'a world \<Rightarrow> (ptr \<times> Vector, 'a world) outcome" where
  "Erase env pos this w =
     (if fst pos \<noteq> m_buffer (m_data this) then Undefined
      else
        from_option (Vector_end this) (\<lambda>e.
          from_option (ptr_sub e (snd pos + 1)) (\<lambda>stop.
            and_then
              (if nothrow_move_assignable env
               then Erase_move_loop env (m_capacity (m_data this)) pos stop w
               else Erase_copy_loop env (m_capacity (m_data this)) pos stop w) (\<lambda>_ w1.
              let this1 = this\<lparr>m_size := size_dec (m_size this)\<rparr> in
              from_option (Vector_end this1) (\<lambda>e1.
                and_then (destroy_at e1 w1) (\<lambda>_ w2. Returned (pos, this1) w2))))))"

text \<open>
  \<^verbatim>\<open>Erase\<close> (second revision, lines 595 to 606). It starts with
  \<^verbatim>\<open>assert(pos >= begin() && pos < end())\<close>, and moves or copies
  \<^verbatim>\<open>pos - begin() + 1\<close> elements from \<^verbatim>\<open>pos + 1\<close> to \<^verbatim>\<open>pos\<close>.
\<close>

definition Erase2 :: "'a elem_type \<Rightarrow> ptr \<Rightarrow> Vector \<Rightarrow> 'a world \<Rightarrow> (ptr \<times> Vector, 'a world) outcome" where
  "Erase2 env pos this w =
     from_option (Vector_end this) (\<lambda>e.
       if fst pos \<noteq> m_buffer (m_data this) \<or> \<not> snd pos < snd e then Undefined
       else
         and_then
           (if nothrow_move_assignable env
            then uninitialized_move_n env (ptr_add pos 1) (snd pos + 1) pos w
            else copy_n env (ptr_add pos 1) (snd pos + 1) pos w) (\<lambda>_ w1.
           let this1 = this\<lparr>m_size := size_dec (m_size this)\<rparr> in
           from_option (Vector_end this1) (\<lambda>e1.
             and_then (destroy_at e1 w1) (\<lambda>_ w2. Returned (pos, this1) w2))))"

text \<open>\<^verbatim>\<open>PopBack\<close> (first revision, lines 336 to 339): \<^verbatim>\<open>size_--; std::destroy_at(end());\<close>\<close>

definition PopBack :: "Vector \<Rightarrow> 'a world \<Rightarrow> (Vector, 'a world) outcome" where
  "PopBack this w =
     (let this1 = this\<lparr>m_size := size_dec (m_size this)\<rparr> in
      from_option (Vector_end this1) (\<lambda>e.
        and_then (destroy_at e w) (\<lambda>_ w1. Returned this1 w1)))"

text \<open>\<^verbatim>\<open>PopBack\<close> (second revision, lines 614 to 619): the same under \<^verbatim>\<open>if (size_ != 0)\<close>.\<close>

definition PopBack2 :: "Vector \<Rightarrow> 'a world \<Rightarrow> (Vector, 'a world) outcome" where
  "PopBack2 this w =
     (if m_size this \<noteq> 0 then
        (let this1 = this\<lparr>m_size := size_dec (m_size this)\<rparr> in
         from_option (Vector_end this1) (\<lambda>e.
           and_then (destroy_at e w) (\<lambda>_ w1. Returned this1 w1)))
      else Returned this w)"

section \<open>What a vector holds\<close>

text \<open>
  \<open>holds w v xs\<close>: in the world \<open>w\<close> the vector \<open>v\<close> is well formed and its elements are
  \<open>xs\<close>. Its size is the length of \<open>xs\<close> and at most its capacity; its buffer has
  capacity many slots, of which the first size many hold the live objects \<open>xs\<close> and the
  others are uninitialised; the buffer is null exactly when the capacity is 0, and it was
  allocated before the next fresh address.
\<close>

definition holds :: "'a world \<Rightarrow> Vector \<Rightarrow> 'a list \<Rightarrow> bool" where
  "holds w v xs \<longleftrightarrow>
     m_size v = length xs \<and> length xs \<le> m_capacity (m_data v) \<and>
     heap w (m_buffer (m_data v)) = map Live xs @ replicate (m_capacity (m_data v) - length xs) Raw \<and>
     (m_buffer (m_data v) = 0) = (m_capacity (m_data v) = 0) \<and>
     m_buffer (m_data v) < next_addr w \<and> heap w 0 = []"

text \<open>The position \<^verbatim>\<open>begin() + i\<close> of a vector.\<close>

definition position :: "Vector \<Rightarrow> nat \<Rightarrow> ptr" where
  "position v i = ptr_add (Vector_begin v) i"

text \<open>Two vectors share no buffer: their buffers differ, or both are null.\<close>

definition disjoint :: "Vector \<Rightarrow> Vector \<Rightarrow> bool" where
  "disjoint v u \<longleftrightarrow> m_buffer (m_data v) \<noteq> m_buffer (m_data u) \<or> m_buffer (m_data v) = 0"

text \<open>
  The first copy-constructor call that throws when the values \<open>vs\<close> are copied in order,
  the first of them by call number \<open>c\<close>: its index in \<open>vs\<close>, or \<open>None\<close> when none throws.
\<close>

fun first_throw :: "'a elem_type \<Rightarrow> nat \<Rightarrow> 'a list \<Rightarrow> nat option" where
  "first_throw env c [] = None"
| "first_throw env c (v # vs) =
     (if copy_throws env c v then Some 0 else map_option Suc (first_throw env (Suc c) vs))"

text \<open>Whether constructing from the arguments throws, and the copy-constructor calls it makes.\<close>

fun arg_throws :: "'a elem_type \<Rightarrow> nat \<Rightarrow> 'a args \<Rightarrow> bool" where
  "arg_throws env c (Lvalue v) = copy_throws env c v"
| "arg_throws env c (Rvalue v) = False"

fun arg_copies :: "'a args \<Rightarrow> nat" where
  "arg_copies (Lvalue v) = 1"
| "arg_copies (Rvalue v) = 0"

text \<open>A caller that appends one element after another with \<^verbatim>\<open>PushBack\<close>.\<close>

fun push_all :: "'a elem_type \<Rightarrow> 'a args list \<Rightarrow> Vector \<Rightarrow> 'a world \<Rightarrow> (Vector, 'a world) outcome" where
  "push_all env [] v w = Returned v w"
| "push_all env (x # xs) v w = and_then (PushBack env x v w) (\<lambda>v1 w1. push_all env xs v1 w1)"

section \<open>Concrete element types and worlds\<close>

text \<open>\<^verbatim>\<open>T = int\<close>: every trait holds, nothing throws, a moved-from \<^verbatim>\<open>int\<close> keeps its value.\<close>

definition int_elem :: "int elem_type" where
  "int_elem = \<lparr>nothrow_move_constructible = True, copy_constructible = True,
     nothrow_move_assignable = True, copy_throws = (\<lambda>n v. False), moved_from = (\<lambda>v. v),
     value_init = 0, new_fails = (\<lambda>n. False)\<rparr>"

text \<open>
  An instrumented element type as in the spec's exception-injection test: a copy
  constructor that throws on its call number \<open>k\<close> (counted from 0), and a move constructor
  and a move assignment that are not \<^verbatim>\<open>noexcept\<close>.
\<close>

definition throwing_elem :: "nat \<Rightarrow> int elem_type" where
  "throwing_elem k = \<lparr>nothrow_move_constructible = False, copy_constructible = True,
     nothrow_move_assignable = False, copy_throws = (\<lambda>n v. n = k), moved_from = (\<lambda>v. v),
     value_init = 0, new_fails = (\<lambda>n. False)\<rparr>"

text \<open>A world with one buffer at address 1, and a vector on it.\<close>

definition one_buffer :: "int slot list \<Rightarrow> int world" where
  "one_buffer cells = \<lparr>heap = (\<lambda>a. [])(1 := cells), next_addr = 2, ctors = 0, dtors = 0, copies = 0\<rparr>"

definition vector_at :: "nat \<Rightarrow> nat \<Rightarrow> nat \<Rightarrow> Vector" where
  "vector_at a c n = \<lparr>m_data = \<lparr>m_buffer = a, m_capacity = c\<rparr>, m_size = n\<rparr>"

text \<open>A world with buffers at the addresses 1 and 2.\<close>

definition two_buffers :: "int slot list \<Rightarrow> int slot list \<Rightarrow> int world" where
  "two_buffers cells1 cells2 =
     \<lparr>heap = (\<lambda>a. [])(1 := cells1, 2 := cells2), next_addr = 3, ctors = 0, dtors = 0, copies = 0\<rparr>"

definition empty_world :: "int world" where
  "empty_world = \<lparr>heap = (\<lambda>a. []), next_addr = 1, ctors = 0, dtors = 0, copies = 0\<rparr>"

section \<open>Basic facts\<close>

lemmas prims = cell_def store_def deref_def construct_at_def destroy_at_def assign_def
  copy_construct_value_def copy_construct_def move_construct_def copy_assign_def move_assign_def
  ptr_add_def ptr_sub_def destroy_temp_def

lemmas raws = Allocate_def Deallocate_def RawMemory_default_def RawMemory_ctor_def RawMemory_move_def
  RawMemory_dtor_def RawMemory_plus_def RawMemory_index_def RawMemory_Swap_def GetAddress_def

lemmas sizes = SIZE_MAX_def size_inc_def size_dec_def size_sub_def size_mul2_def

lemmas vecs = Size_def Capacity_def Vector_begin_def Vector_end_def

lemmas examples = int_elem_def throwing_elem_def one_buffer_def vector_at_def two_buffers_def
  empty_world_def position_def

lemma world_eqI:
  fixes w w' :: "'a world"
  shows "heap w = heap w' \<Longrightarrow> next_addr w = next_addr w' \<Longrightarrow> ctors w = ctors w' \<Longrightarrow>
    dtors w = dtors w' \<Longrightarrow> copies w = copies w' \<Longrightarrow> w = w'"
  by simp

lemma replicate_split: "n \<le> k \<Longrightarrow> replicate k x = replicate n x @ replicate (k - n) x"
  by (metis le_add_diff_inverse replicate_add)

lemma holds_vector_at:
  "holds (one_buffer [Live 1, Live 2, Live 3, Raw]) (vector_at 1 4 3) [1, 2, 3]"
  by (simp add: holds_def one_buffer_def vector_at_def)

lemma holds_default: "heap w 0 = [] \<Longrightarrow> 0 < next_addr w \<Longrightarrow> holds w Vector_default []"
  by (simp add: holds_def Vector_default_def RawMemory_default_def)

lemma first_throw_append_None:
  "first_throw env c (xs @ ys) = None \<longleftrightarrow>
     first_throw env c xs = None \<and> first_throw env (c + length xs) ys = None"
  by (induction xs arbitrary: c) auto

lemma first_throw_less: "first_throw env c xs = Some k \<Longrightarrow> k < length xs"
  by (induction xs arbitrary: c k) (auto split: if_splits)

section \<open>The standard algorithms on buffers\<close>

text \<open>A count written as a numeral.\<close>

lemma loops_numeral:
  "uninitialized_copy_n env first (numeral k) result w =
     uninitialized_copy_n env first (Suc (pred_numeral k)) result w"
  "uninitialized_move_n env first (numeral k) result w =
     uninitialized_move_n env first (Suc (pred_numeral k)) result w"
  "uninitialized_value_construct_n env first (numeral k) w =
     uninitialized_value_construct_n env first (Suc (pred_numeral k)) w"
  "destroy_n first (numeral k) w = destroy_n first (Suc (pred_numeral k)) w"
  "copy_n env first (numeral k) result w = copy_n env first (Suc (pred_numeral k)) result w"
  by (simp_all only: numeral_eq_Suc)

lemma uninitialized_move_n_across:
  "a \<noteq> b \<Longrightarrow> heap w a = pre @ map Live vs @ post \<Longrightarrow> heap w b = pre' @ olds @ post' \<Longrightarrow>
   length olds = length vs \<Longrightarrow> i = length pre \<Longrightarrow> j = length pre' \<Longrightarrow>
   uninitialized_move_n env (a, i) (length vs) (b, j) w =
     Returned () (w\<lparr>heap := (heap w)(a := pre @ map (\<lambda>v. Live (moved_from env v)) vs @ post,
                                      b := pre' @ map Live vs @ post'),
                    ctors := ctors w + length vs\<rparr>)"
proof (induction vs arbitrary: w pre pre' olds i j)
  case Nil
  then show ?case by (auto intro!: world_eqI simp: fun_eq_iff)
next
  case (Cons x vs)
  obtain o1 olds1 where olds: "olds = o1 # olds1"
    using Cons.prems(4) by (cases olds) auto
  let ?w1 = "w\<lparr>heap := (heap w)(a := (pre @ [Live (moved_from env x)]) @ map Live vs @ post,
                               b := (pre' @ [Live x]) @ olds1 @ post'),
               ctors := ctors w + 1\<rparr>"
  have step: "move_construct env (b, j) (a, i) w = Returned () ?w1"
    using Cons.prems olds by (auto simp: prims intro!: world_eqI simp: fun_eq_iff)
  have rest: "uninitialized_move_n env (a, Suc i) (length vs) (b, Suc j) ?w1 =
     Returned () (?w1\<lparr>heap := (heap ?w1)(a := (pre @ [Live (moved_from env x)]) @ map (\<lambda>v. Live (moved_from env v)) vs @ post,
                                      b := (pre' @ [Live x]) @ map Live vs @ post'),
                    ctors := ctors ?w1 + length vs\<rparr>)"
    by (rule Cons.IH) (use Cons.prems olds in simp_all)
  have "uninitialized_move_n env (a, i) (length (x # vs)) (b, j) w =
        uninitialized_move_n env (a, Suc i) (length vs) (b, Suc j) ?w1"
    by (simp add: step ptr_add_def)
  also note rest
  finally show ?case by (auto intro!: world_eqI simp: fun_eq_iff)
qed


lemma uninitialized_copy_n_across:
  "a \<noteq> b \<Longrightarrow> heap w a = pre @ map Live vs @ post \<Longrightarrow>
   heap w b = pre' @ replicate (length vs) Raw @ post' \<Longrightarrow> i = length pre \<Longrightarrow> j = length pre' \<Longrightarrow>
   uninitialized_copy_n env (a, i) (length vs) (b, j) w =
     (case first_throw env (copies w) vs of
        None \<Rightarrow> Returned () (w\<lparr>heap := (heap w)(b := pre' @ map Live vs @ post'),
                               ctors := ctors w + length vs, copies := copies w + length vs\<rparr>)
      | Some k \<Rightarrow> Thrown copy_failed
                   (w\<lparr>ctors := ctors w + k, dtors := dtors w + k, copies := copies w + k + 1\<rparr>))"
proof (induction vs arbitrary: w pre pre' i j)
  case Nil
  then show ?case by (auto intro!: world_eqI simp: fun_eq_iff)
next
  case (Cons x vs)
  show ?case
  proof (cases "copy_throws env (copies w) x")
    case True
    then have "copy_construct env (b, j) (a, i) w = Thrown copy_failed (w\<lparr>copies := copies w + 1\<rparr>)"
      using Cons.prems by (simp add: prims)
    then show ?thesis using True by simp
  next
    case False
    let ?w1 = "w\<lparr>heap := (heap w)(b := (pre' @ [Live x]) @ replicate (length vs) Raw @ post'),
                 ctors := ctors w + 1, copies := copies w + 1\<rparr>"
    have step: "copy_construct env (b, j) (a, i) w = Returned () ?w1"
      using Cons.prems False by (auto simp: prims intro!: world_eqI simp: fun_eq_iff)
    have rest: "uninitialized_copy_n env (a, Suc i) (length vs) (b, Suc j) ?w1 =
       (case first_throw env (copies ?w1) vs of
          None \<Rightarrow> Returned () (?w1\<lparr>heap := (heap ?w1)(b := (pre' @ [Live x]) @ map Live vs @ post'),
                               ctors := ctors ?w1 + length vs, copies := copies ?w1 + length vs\<rparr>)
        | Some k \<Rightarrow> Thrown copy_failed
                   (?w1\<lparr>ctors := ctors ?w1 + k, dtors := dtors ?w1 + k, copies := copies ?w1 + k + 1\<rparr>))"
      by (rule Cons.IH [where pre = "pre @ [Live x]"]) (use Cons.prems in simp_all)
    have unfold: "uninitialized_copy_n env (a, i) (length (x # vs)) (b, j) w =
        (case uninitialized_copy_n env (a, Suc i) (length vs) (b, Suc j) ?w1 of
           Thrown e w2 \<Rightarrow> and_then (destroy_at (b, j) w2) (\<lambda>_ w3. Thrown e w3)
         | Returned r w2 \<Rightarrow> Returned r w2
         | Undefined \<Rightarrow> Undefined)"
      by (simp add: step ptr_add_def)
    show ?thesis
    proof (cases "first_throw env (Suc (copies w)) vs")
      case None
      then show ?thesis
        using False rest unfolding unfold by (auto intro!: world_eqI simp: fun_eq_iff)
    next
      case (Some k)
      then show ?thesis
        using False rest Cons.prems unfolding unfold
        by (auto simp: prims intro!: world_eqI simp: fun_eq_iff)
    qed
  qed
qed

lemma destroy_n_live:
  "heap w a = pre @ map Live vs @ post \<Longrightarrow> i = length pre \<Longrightarrow>
   destroy_n (a, i) (length vs) w =
     Returned () (w\<lparr>heap := (heap w)(a := pre @ replicate (length vs) Raw @ post),
                    dtors := dtors w + length vs\<rparr>)"
proof (induction vs arbitrary: w pre i)
  case Nil
  then show ?case by (auto intro!: world_eqI simp: fun_eq_iff)
next
  case (Cons x vs)
  let ?w1 = "w\<lparr>heap := (heap w)(a := (pre @ [Raw]) @ map Live vs @ post), dtors := dtors w + 1\<rparr>"
  have step: "destroy_at (a, i) w = Returned () ?w1"
    using Cons.prems by (simp add: prims)
  have rest: "destroy_n (a, Suc i) (length vs) ?w1 =
     Returned () (?w1\<lparr>heap := (heap ?w1)(a := (pre @ [Raw]) @ replicate (length vs) Raw @ post),
                    dtors := dtors ?w1 + length vs\<rparr>)"
    by (rule Cons.IH) (use Cons.prems in simp_all)
  have "destroy_n (a, i) (length (x # vs)) w = destroy_n (a, Suc i) (length vs) ?w1"
    by (simp add: step ptr_add_def)
  also note rest
  finally show ?case by (auto intro!: world_eqI simp: fun_eq_iff)
qed

lemma copy_n_across:
  "a \<noteq> b \<Longrightarrow> heap w a = pre @ map Live vs @ post \<Longrightarrow> heap w b = pre' @ map Live olds @ post' \<Longrightarrow>
   length olds = length vs \<Longrightarrow> i = length pre \<Longrightarrow> j = length pre' \<Longrightarrow>
   copy_n env (a, i) (length vs) (b, j) w =
     Returned () (w\<lparr>heap := (heap w)(b := pre' @ map Live vs @ post')\<rparr>)"
proof (induction vs arbitrary: w pre pre' olds i j)
  case Nil
  then show ?case by (auto intro!: world_eqI simp: fun_eq_iff)
next
  case (Cons x vs)
  obtain o1 olds1 where olds: "olds = o1 # olds1"
    using Cons.prems(4) by (cases olds) auto
  let ?w1 = "w\<lparr>heap := (heap w)(b := (pre' @ [Live x]) @ map Live olds1 @ post')\<rparr>"
  have step: "copy_assign env (b, j) (a, i) w = Returned () ?w1"
    using Cons.prems olds by (auto simp: prims intro!: world_eqI simp: fun_eq_iff)
  have rest: "copy_n env (a, Suc i) (length vs) (b, Suc j) ?w1 =
     Returned () (?w1\<lparr>heap := (heap ?w1)(b := (pre' @ [Live x]) @ map Live vs @ post')\<rparr>)"
    by (rule Cons.IH [where pre = "pre @ [Live x]" and olds = olds1])
       (use Cons.prems olds in simp_all)
  have "copy_n env (a, i) (length (x # vs)) (b, j) w = copy_n env (a, Suc i) (length vs) (b, Suc j) ?w1"
    by (simp add: step ptr_add_def)
  also note rest
  finally show ?case by (auto intro!: world_eqI simp: fun_eq_iff)
qed

lemma uninitialized_value_construct_n_fresh:
  "heap w a = pre @ olds @ post \<Longrightarrow> i = length pre \<Longrightarrow>
   uninitialized_value_construct_n env (a, i) (length olds) w =
     Returned () (w\<lparr>heap := (heap w)(a := pre @ replicate (length olds) (Live (value_init env)) @ post),
                    ctors := ctors w + length olds\<rparr>)"
proof (induction olds arbitrary: w pre i)
  case Nil
  then show ?case by (auto intro!: world_eqI simp: fun_eq_iff)
next
  case (Cons x olds)
  let ?w1 = "w\<lparr>heap := (heap w)(a := (pre @ [Live (value_init env)]) @ olds @ post), ctors := ctors w + 1\<rparr>"
  have step: "construct_at (a, i) (value_init env) w = Returned () ?w1"
    using Cons.prems by (simp add: prims)
  have rest: "uninitialized_value_construct_n env (a, Suc i) (length olds) ?w1 =
     Returned () (?w1\<lparr>heap := (heap ?w1)(a := (pre @ [Live (value_init env)]) @ replicate (length olds) (Live (value_init env)) @ post),
                    ctors := ctors ?w1 + length olds\<rparr>)"
    by (rule Cons.IH) (use Cons.prems in simp_all)
  have "uninitialized_value_construct_n env (a, i) (length (x # olds)) w =
        uninitialized_value_construct_n env (a, Suc i) (length olds) ?w1"
    by (simp add: step ptr_add_def)
  also note rest
  finally show ?case by (auto intro!: world_eqI simp: fun_eq_iff)
qed


lemma construct_cases:
  "heap w b = pre @ s # post \<Longrightarrow> j = length pre \<Longrightarrow>
   construct env (b, j) args w =
     (if arg_throws env (copies w) args then Thrown copy_failed (w\<lparr>copies := copies w + 1\<rparr>)
      else Returned () (w\<lparr>heap := (heap w)(b := pre @ Live (arg_value args) # post),
                          ctors := ctors w + 1, copies := copies w + arg_copies args\<rparr>))"
  by (cases args) (auto simp: prims intro!: world_eqI)

text \<open>
  The transfer of a range into a new buffer, by the strategy of the element type: it
  returns with the range constructed in the new buffer, or (copying only) throws and leaves
  every buffer as it was.
\<close>

lemma transfer_across:
  assumes "a \<noteq> b" and "heap w a = pre @ map Live vs @ post"
    and "heap w b = pre' @ replicate (length vs) Raw @ post'"
    and "i = length pre" and "j = length pre'"
  shows "(if transfer_safe env then uninitialized_move_n env (a, i) (length vs) (b, j) w
          else uninitialized_copy_n env (a, i) (length vs) (b, j) w) =
     (case (if transfer_safe env then None else first_throw env (copies w) vs) of
        None \<Rightarrow> Returned ()
          (w\<lparr>heap := (heap w)(a := pre @ map Live (map (if transfer_safe env then moved_from env
                                                         else (\<lambda>v. v)) vs) @ post,
                               b := pre' @ map Live vs @ post'),
             ctors := ctors w + length vs,
             copies := copies w + (if transfer_safe env then 0 else length vs)\<rparr>)
      | Some k \<Rightarrow> Thrown copy_failed
          (w\<lparr>ctors := ctors w + k, dtors := dtors w + k, copies := copies w + k + 1\<rparr>))"
proof (cases "transfer_safe env")
  case True
  have "uninitialized_move_n env (a, i) (length vs) (b, j) w =
     Returned () (w\<lparr>heap := (heap w)(a := pre @ map (\<lambda>v. Live (moved_from env v)) vs @ post,
                                      b := pre' @ map Live vs @ post'),
                    ctors := ctors w + length vs\<rparr>)"
    by (rule uninitialized_move_n_across [OF assms(1,2,3)]) (simp_all add: assms)
  with True show ?thesis by (simp add: comp_def)
next
  case False
  have "heap w a = pre @ map Live vs @ post" by fact
  then have same: "(heap w)(a := pre @ map Live vs @ post, b := pre' @ map Live vs @ post') =
      (heap w)(b := pre' @ map Live vs @ post')"
    by (auto simp: fun_eq_iff)
  show ?thesis
    using False uninitialized_copy_n_across [OF assms, of env] same
    by (simp split: option.splits)
qed


lemma size_mul2_small: "n < 2 ^ 63 \<Longrightarrow> size_mul2 n = 2 * n"
  by (simp add: size_mul2_def SIZE_MAX_def)

lemma size_inc_small: "n < 2 ^ 63 \<Longrightarrow> size_inc n = n + 1"
  by (simp add: size_inc_def SIZE_MAX_def)

lemma Deallocate_frame [simp]:
  "next_addr (Deallocate b w) = next_addr w" "ctors (Deallocate b w) = ctors w"
  "dtors (Deallocate b w) = dtors w" "copies (Deallocate b w) = copies w"
  "a \<noteq> b \<Longrightarrow> heap (Deallocate b w) a = heap w a"
  by (simp_all add: Deallocate_def)

lemma holds_frame:
  "holds w v xs \<Longrightarrow> heap w' (m_buffer (m_data v)) = heap w (m_buffer (m_data v)) \<Longrightarrow>
   heap w' 0 = [] \<Longrightarrow> next_addr w \<le> next_addr w' \<Longrightarrow> holds w' v xs"
  by (auto simp: holds_def)

section \<open>\<^verbatim>\<open>Reserve\<close>\<close>





section \<open>Copy construction and destruction\<close>

text \<open>The copy constructor of the vector.\<close>

lemma Vector_copy_returns:
  assumes h: "holds w rhs ys" and ne: "ys \<noteq> []" and new: "\<not> new_fails env (length ys)"
    and cp: "first_throw env (copies w) ys = None"
  shows "Vector_copy env rhs w =
     Returned \<lparr>m_data = \<lparr>m_buffer = next_addr w, m_capacity = length ys\<rparr>, m_size = length ys\<rparr>
       (w\<lparr>heap := (heap w)(next_addr w := map Live ys), next_addr := next_addr w + 1,
           ctors := ctors w + length ys, copies := copies w + length ys\<rparr>)"
proof -
  define r where "r = m_buffer (m_data rhs)"
  define b where "b = next_addr w"
  from h have sz: "m_size rhs = length ys"
    and hr: "heap w r = map Live ys @ replicate (m_capacity (m_data rhs) - length ys) Raw"
    and rb: "r < b"
    by (simp_all add: holds_def r_def b_def)
  define w1 where "w1 = w\<lparr>heap := (heap w)(b := replicate (length ys) Raw), next_addr := b + 1\<rparr>"
  have s1: "RawMemory_ctor env (length ys) w = Returned \<lparr>m_buffer = b, m_capacity = length ys\<rparr> w1"
    using ne new by (simp add: raws w1_def b_def)
  have neq: "r \<noteq> b" using rb by simp
  have w1r: "heap w1 r = [] @ map Live ys @ replicate (m_capacity (m_data rhs) - length ys) Raw"
    using hr neq by (simp add: w1_def)
  have w1b: "heap w1 b = [] @ replicate (length ys) Raw @ []"
    by (simp add: w1_def)
  have s2: "uninitialized_copy_n env (r, 0) (length ys) (b, 0) w1 =
      Returned () (w1\<lparr>heap := (heap w1)(b := [] @ map Live ys @ []),
                      ctors := ctors w1 + length ys, copies := copies w1 + length ys\<rparr>)"
    using uninitialized_copy_n_across [OF neq w1r w1b, of 0 0 env] cp
    by (simp add: w1_def)
  show ?thesis
    by (simp add: Vector_copy_def sz s1 s2 GetAddress_def r_def [symmetric] b_def [symmetric])
       (auto simp: w1_def intro!: world_eqI)
qed

text \<open>When the copy constructor throws, it has changed no buffer that was allocated before.\<close>

lemma Vector_copy_throws:
  assumes h: "holds w rhs ys" and ne: "ys \<noteq> []"
    and t: "Vector_copy env rhs w = Thrown e w'"
  shows "next_addr w \<le> next_addr w' \<and> (\<forall>a. a < next_addr w \<longrightarrow> heap w' a = heap w a)"
proof -
  define r where "r = m_buffer (m_data rhs)"
  define b where "b = next_addr w"
  from h have sz: "m_size rhs = length ys"
    and hr: "heap w r = map Live ys @ replicate (m_capacity (m_data rhs) - length ys) Raw"
    and rb: "r < b"
    by (simp_all add: holds_def r_def b_def)
  show ?thesis
  proof (cases "new_fails env (length ys)")
    case True
    then have "Vector_copy env rhs w = Thrown bad_alloc w"
      using ne by (simp add: Vector_copy_def sz raws)
    with t show ?thesis by simp
  next
    case False
    define w1 where "w1 = w\<lparr>heap := (heap w)(b := replicate (length ys) Raw), next_addr := b + 1\<rparr>"
    have s1: "RawMemory_ctor env (length ys) w = Returned \<lparr>m_buffer = b, m_capacity = length ys\<rparr> w1"
      using ne False by (simp add: raws w1_def b_def)
    have neq: "r \<noteq> b" using rb by simp
    have w1r: "heap w1 r = [] @ map Live ys @ replicate (m_capacity (m_data rhs) - length ys) Raw"
      using hr neq by (simp add: w1_def)
    have w1b: "heap w1 b = [] @ replicate (length ys) Raw @ []"
      by (simp add: w1_def)
    note s2 = uninitialized_copy_n_across [OF neq w1r w1b, of 0 0 env]
    show ?thesis
    proof (cases "first_throw env (copies w1) ys")
      case None
      then show ?thesis
        using t s2 by (simp add: Vector_copy_def sz s1 GetAddress_def r_def [symmetric])
    next
      case (Some k)
      then have "Vector_copy env rhs w = Thrown copy_failed
         (RawMemory_dtor \<lparr>m_buffer = b, m_capacity = length ys\<rparr>
           (w1\<lparr>ctors := ctors w1 + k, dtors := dtors w1 + k, copies := copies w1 + k + 1\<rparr>))"
        using s2 by (simp add: Vector_copy_def sz s1 GetAddress_def r_def [symmetric])
      with t show ?thesis
        by (auto simp: RawMemory_dtor_def Deallocate_def w1_def b_def)
    qed
  qed
qed


lemma destroy_n_not_thrown: "destroy_n p n w \<noteq> Thrown e w'"
proof (induction n arbitrary: p w)
  case 0
  then show ?case by simp
next
  case (Suc n)
  show ?case
  proof (cases "destroy_at p w")
    case (Returned u w1)
    then show ?thesis using Suc.IH [of "ptr_add p 1" w1] by simp
  next
    case (Thrown e1 w1)
    then show ?thesis by (simp add: destroy_at_def split: option.splits slot.splits)
  next
    case Undefined
    then show ?thesis by simp
  qed
qed

text \<open>The destructor of a vector.\<close>

lemma Vector_dtor_returns:
  assumes h: "holds w v xs"
  shows "Vector_dtor v w =
     Returned () (Deallocate (m_buffer (m_data v))
       (w\<lparr>heap := (heap w)(m_buffer (m_data v) := replicate (m_capacity (m_data v)) Raw),
           dtors := dtors w + length xs\<rparr>))"
proof -
  define a where "a = m_buffer (m_data v)"
  from h have sz: "m_size v = length xs" and nc: "length xs \<le> m_capacity (m_data v)"
    and ha: "heap w a = [] @ map Live xs @ replicate (m_capacity (m_data v) - length xs) Raw"
    by (simp_all add: holds_def a_def)
  have "destroy_n (a, 0) (length xs) w =
      Returned () (w\<lparr>heap := (heap w)(a := [] @ replicate (length xs) Raw @
                         replicate (m_capacity (m_data v) - length xs) Raw),
                      dtors := dtors w + length xs\<rparr>)"
    by (rule destroy_n_live [OF ha]) simp
  moreover have "replicate (length xs) Raw @ replicate (m_capacity (m_data v) - length xs) Raw
      = replicate (m_capacity (m_data v)) (Raw :: 'a slot)"
    by (rule replicate_split [OF nc, symmetric])
  ultimately show ?thesis
    by (simp add: Vector_dtor_def sz GetAddress_def RawMemory_dtor_def a_def [symmetric])
qed

section \<open>Copy assignment\<close>

lemma Swap_eq: "Swap this other w = Returned (other, this) w"
  by (simp add: Swap_def RawMemory_Swap_def)

lemma assign_copy_swap_returns:
  assumes ht: "holds w this xs" and hr: "holds w rhs ys" and dj: "disjoint this rhs"
    and big: "Capacity this < length ys" and new: "\<not> new_fails env (length ys)"
    and cp: "first_throw env (copies w) ys = None"
  shows "\<exists>this' w'. assign_copy env this rhs w = Returned this' w' \<and>
           holds w' this' ys \<and> holds w' rhs ys \<and>
           m_buffer (m_data this') = next_addr w \<and> Capacity this' = length ys \<and>
           ctors w' = ctors w + length ys \<and> copies w' = copies w + length ys \<and>
           dtors w' = dtors w + length xs"
proof -
  define a where "a = m_buffer (m_data this)"
  define r where "r = m_buffer (m_data rhs)"
  define b where "b = next_addr w"
  from big have ne: "ys \<noteq> []" by auto
  from hr have szr: "m_size rhs = length ys" by (simp add: holds_def)
  define w1 where "w1 = w\<lparr>heap := (heap w)(b := map Live ys), next_addr := b + 1,
           ctors := ctors w + length ys, copies := copies w + length ys\<rparr>"
  have s1: "Vector_copy env rhs w =
     Returned \<lparr>m_data = \<lparr>m_buffer = b, m_capacity = length ys\<rparr>, m_size = length ys\<rparr> w1"
    unfolding w1_def b_def by (rule Vector_copy_returns [OF hr ne new cp])
  from ht have ab: "a < b" and a0: "(a = 0) = (m_capacity (m_data this) = 0)"
    and szt: "m_size this = length xs"
    by (simp_all add: holds_def a_def b_def)
  from hr have rb: "r < b" by (simp add: holds_def r_def b_def)
  have ht1: "holds w1 this xs"
    using ht ab by (simp add: holds_def w1_def a_def b_def)
  define w2 where "w2 = Deallocate a
       (w1\<lparr>heap := (heap w1)(a := replicate (m_capacity (m_data this)) Raw),
           dtors := dtors w1 + length xs\<rparr>)"
  have s2: "Vector_dtor this w1 = Returned () w2"
    unfolding w2_def a_def by (rule Vector_dtor_returns [OF ht1])
  have run: "assign_copy env this rhs w =
      Returned \<lparr>m_data = \<lparr>m_buffer = b, m_capacity = length ys\<rparr>, m_size = length ys\<rparr> w2"
    using big szr s2
    by (simp add: assign_copy_def Capacity_def s1 Swap_eq)
  have "holds w2 \<lparr>m_data = \<lparr>m_buffer = b, m_capacity = length ys\<rparr>, m_size = length ys\<rparr> ys"
    using ab ne ht by (auto simp: holds_def w2_def w1_def Deallocate_def a_def)
  moreover have "holds w2 rhs ys"
    using hr rb ab dj a0 ht
    by (auto simp: holds_def w2_def w1_def Deallocate_def a_def r_def b_def disjoint_def)
  moreover have "ctors w2 = ctors w + length ys" "copies w2 = copies w + length ys"
    "dtors w2 = dtors w + length xs"
    by (simp_all add: w2_def w1_def Deallocate_def)
  ultimately show ?thesis
    using run by (simp add: Capacity_def b_def)
qed

lemma assign_copy_swap_throws:
  assumes ht: "holds w this xs" and hr: "holds w rhs ys"
    and big: "Capacity this < length ys"
    and t: "assign_copy env this rhs w = Thrown e w'"
  shows "holds w' this xs \<and> holds w' rhs ys"
proof -
  from big have ne: "ys \<noteq> []" by auto
  from hr have szr: "m_size rhs = length ys" by (simp add: holds_def)
  show ?thesis
  proof (cases "Vector_copy env rhs w")
    case (Returned c w1)
    with t big szr have "and_then (Vector_dtor this w1) (\<lambda>_ w3. Returned c w3) = Thrown e w'"
      by (simp add: assign_copy_def Capacity_def Swap_eq)
    then show ?thesis
      using destroy_n_not_thrown [of "GetAddress (m_data this)" "m_size this" w1]
      by (cases "destroy_n (GetAddress (m_data this)) (m_size this) w1")
         (auto simp: Vector_dtor_def)
  next
    case (Thrown e1 w1)
    with t big szr have w': "w1 = w'"
      by (simp add: assign_copy_def Capacity_def)
    from Vector_copy_throws [OF hr ne Thrown]
    have "next_addr w \<le> next_addr w1" "\<forall>a. a < next_addr w \<longrightarrow> heap w1 a = heap w a"
      by simp_all
    with ht hr show ?thesis
      unfolding w' [symmetric] by (auto simp: holds_def)
  next
    case Undefined
    with t big szr show ?thesis by (simp add: assign_copy_def Capacity_def)
  qed
qed


lemma CopyRhs_returns:
  assumes ht: "holds w this xs" and hr: "holds w rhs ys" and dj: "disjoint this rhs"
    and fits: "length ys \<le> Capacity this"
    and cp: "first_throw env (copies w) (drop (length xs) ys) = None"
  shows "\<exists>this' w'. CopyRhs env this rhs w = Returned this' w' \<and>
           holds w' this' ys \<and> holds w' rhs ys \<and> m_data this' = m_data this \<and>
           ctors w' = ctors w + (length ys - length xs) \<and>
           copies w' = copies w + (length ys - length xs) \<and>
           dtors w' = dtors w + (length xs - length ys)"
proof -
  define a where "a = m_buffer (m_data this)"
  define r where "r = m_buffer (m_data rhs)"
  define c where "c = m_capacity (m_data this)"
  define d where "d = m_capacity (m_data rhs)"
  define m where "m = min (length xs) (length ys)"
  from ht have szt: "m_size this = length xs" and xc: "length xs \<le> c"
    and ha: "heap w a = map Live xs @ replicate (c - length xs) Raw"
    and a0: "(a = 0) = (c = 0)"
    by (simp_all add: holds_def a_def c_def)
  from hr have szr: "m_size rhs = length ys" and yd: "length ys \<le> d"
    and hrr: "heap w r = map Live ys @ replicate (d - length ys) Raw"
    by (simp_all add: holds_def r_def d_def)
  from fits have yc: "length ys \<le> c" by (simp add: Capacity_def c_def)
  show ?thesis
  proof (cases "a = r")
    case True
    with dj have "a = 0" by (simp add: disjoint_def a_def r_def)
    with a0 xc yc have e: "xs = []" "ys = []" by simp_all
    then have "CopyRhs env this rhs w = Returned (this\<lparr>m_size := 0\<rparr>) w"
      using szt szr by (simp add: CopyRhs_def Size_def size_sub_def)
    then show ?thesis
      using ht hr e by (simp add: holds_def)
  next
    case False
    then have neq: "r \<noteq> a" by simp
    have src: "heap w r = [] @ map Live (take m ys) @ (map Live (drop m ys) @ replicate (d - length ys) Raw)"
      using hrr by (simp flip: map_append)
    have dst: "heap w a = [] @ map Live (take m xs) @ (map Live (drop m xs) @ replicate (c - length xs) Raw)"
      using ha by (simp flip: map_append)
    define w1 where "w1 = w\<lparr>heap := (heap w)(a := [] @ map Live (take m ys) @
        (map Live (drop m xs) @ replicate (c - length xs) Raw))\<rparr>"
    have lm: "length (take m ys) = m" "length (take m xs) = m"
      by (simp_all add: m_def)
    have s1: "copy_n env (r, 0) m (a, 0) w = Returned () w1"
      using copy_n_across [OF neq src dst, of 0 0 env] lm by (simp add: w1_def)
    show ?thesis
    proof (cases "length xs < length ys")
      case True
      then have m: "m = length xs" by (simp add: m_def)
      have src2: "heap w1 r = map Live (take (length xs) ys) @ map Live (drop (length xs) ys) @
          replicate (d - length ys) Raw"
        using hrr neq by (simp add: w1_def flip: map_append)
      have cut: "replicate (c - length xs) (Raw :: 'a slot) =
          replicate (length (drop (length xs) ys)) Raw @ replicate (c - length ys) Raw"
        using True yc replicate_split [of "length ys - length xs" "c - length xs" "Raw :: 'a slot"]
        by simp
      have dst2: "heap w1 a = map Live (take (length xs) ys) @
          replicate (length (drop (length xs) ys)) Raw @ replicate (c - length ys) Raw"
        using cut by (simp add: w1_def m)
      define w2 where "w2 = w1\<lparr>heap := (heap w1)(a := map Live (take (length xs) ys) @
             map Live (drop (length xs) ys) @ replicate (c - length ys) Raw),
           ctors := ctors w1 + length (drop (length xs) ys),
           copies := copies w1 + length (drop (length xs) ys)\<rparr>"
      have s2: "uninitialized_copy_n env (r, length xs) (length ys - length xs) (a, length xs) w1 =
          Returned () w2"
        using uninitialized_copy_n_across [OF neq src2 dst2, of "length xs" "length xs" env] cp True
        by (simp add: w2_def w1_def)
      have run: "CopyRhs env this rhs w = Returned (this\<lparr>m_size := length ys\<rparr>) w2"
        using True xc yd s1 s2
        by (simp add: CopyRhs_def Size_def szt szr GetAddress_def RawMemory_plus_def size_sub_def
            a_def [symmetric] r_def [symmetric] c_def [symmetric] d_def [symmetric]
            m_def [symmetric] m)
      have "holds w2 (this\<lparr>m_size := length ys\<rparr>) ys"
        using ht yc by (auto simp: holds_def w2_def w1_def a_def c_def simp flip: map_append)
      moreover have "holds w2 rhs ys"
        using hr neq a0 xc yc by (auto simp: holds_def w2_def w1_def r_def)
      moreover have "ctors w2 = ctors w + (length ys - length xs)"
        "copies w2 = copies w + (length ys - length xs)" "dtors w2 = dtors w + (length xs - length ys)"
        using True by (simp_all add: w2_def w1_def)
      ultimately show ?thesis using run by simp
    next
      case False
      then have m: "m = length ys" by (simp add: m_def)
      have dst2: "heap w1 a = map Live ys @ map Live (drop (length ys) xs) @
          replicate (c - length xs) Raw"
        by (simp add: w1_def m)
      define w2 where "w2 = w1\<lparr>heap := (heap w1)(a := map Live ys @
             replicate (length (drop (length ys) xs)) Raw @ replicate (c - length xs) Raw),
           dtors := dtors w1 + length (drop (length ys) xs)\<rparr>"
      have s2: "destroy_n (a, length ys) (length xs - length ys) w1 = Returned () w2"
        using destroy_n_live [OF dst2, of "length ys"] by (simp add: w2_def)
      have run: "CopyRhs env this rhs w = Returned (this\<lparr>m_size := length ys\<rparr>) w2"
        using False s1 s2
        by (simp add: CopyRhs_def Size_def szt szr GetAddress_def ptr_add_def size_sub_def
            a_def [symmetric] r_def [symmetric] m_def [symmetric] m)
      have join: "replicate (length xs - length ys) (Raw :: 'a slot) @ replicate (c - length xs) Raw =
          replicate (c - length ys) Raw"
        using False xc replicate_split [of "length xs - length ys" "c - length ys" "Raw :: 'a slot"]
        by simp
      have "holds w2 (this\<lparr>m_size := length ys\<rparr>) ys"
        using ht yc join by (auto simp: holds_def w2_def w1_def a_def c_def)
      moreover have "holds w2 rhs ys"
        using hr neq a0 xc yc by (auto simp: holds_def w2_def w1_def r_def)
      moreover have "ctors w2 = ctors w + (length ys - length xs)"
        "copies w2 = copies w + (length ys - length xs)" "dtors w2 = dtors w + (length xs - length ys)"
        using False by (simp_all add: w2_def w1_def)
      ultimately show ?thesis using run by simp
    qed
  qed
qed


text \<open>
  C8. For two vectors that share no buffer, copy assignment returns with the destination
  holding the source's elements (so with the source's size) and the source as it was, provided
  no allocation fails and no copy throws. Where the source's size exceeds the destination's
  capacity, the elements are in a fresh buffer of exactly that size, every element of the
  source was copied once and the old elements were destroyed; and if the assignment throws,
  the destination still holds what it held. Otherwise the destination keeps its buffer: no
  element is constructed or destroyed but the extra tail, which is copy-constructed when the
  source is longer, or the excess tail, which is destroyed when it is shorter.
\<close>

theorem copy_assignment:
  assumes "holds w this xs" and "holds w rhs ys" and "disjoint this rhs"
  shows "(Capacity this < length ys \<longrightarrow>
            (\<not> new_fails env (length ys) \<and> first_throw env (copies w) ys = None \<longrightarrow>
               (\<exists>this' w'. assign_copy env this rhs w = Returned this' w' \<and>
                  holds w' this' ys \<and> holds w' rhs ys \<and> Size this' = Size rhs \<and>
                  m_buffer (m_data this') = next_addr w \<and> Capacity this' = length ys \<and>
                  ctors w' = ctors w + length ys \<and> copies w' = copies w + length ys \<and>
                  dtors w' = dtors w + length xs)) \<and>
            (\<forall>e w'. assign_copy env this rhs w = Thrown e w' \<longrightarrow>
               holds w' this xs \<and> holds w' rhs ys)) \<and>
         (length ys \<le> Capacity this \<and> first_throw env (copies w) (drop (length xs) ys) = None \<longrightarrow>
            (\<exists>this' w'. assign_copy env this rhs w = Returned this' w' \<and>
               holds w' this' ys \<and> holds w' rhs ys \<and> Size this' = Size rhs \<and>
               m_data this' = m_data this \<and>
               ctors w' = ctors w + (length ys - length xs) \<and>
               copies w' = copies w + (length ys - length xs) \<and>
               dtors w' = dtors w + (length xs - length ys)))"
proof (intro conjI impI allI)
  assume "Capacity this < length ys"
    and "\<not> new_fails env (length ys) \<and> first_throw env (copies w) ys = None"
  then have "\<exists>this' w'. assign_copy env this rhs w = Returned this' w' \<and>
           holds w' this' ys \<and> holds w' rhs ys \<and>
           m_buffer (m_data this') = next_addr w \<and> Capacity this' = length ys \<and>
           ctors w' = ctors w + length ys \<and> copies w' = copies w + length ys \<and>
           dtors w' = dtors w + length xs"
    by (intro assign_copy_swap_returns [OF assms]) simp_all
  then show "\<exists>this' w'. assign_copy env this rhs w = Returned this' w' \<and>
                  holds w' this' ys \<and> holds w' rhs ys \<and> Size this' = Size rhs \<and>
                  m_buffer (m_data this') = next_addr w \<and> Capacity this' = length ys \<and>
                  ctors w' = ctors w + length ys \<and> copies w' = copies w + length ys \<and>
                  dtors w' = dtors w + length xs"
    using assms(2) by (auto simp: holds_def Size_def)
next
  fix e w'
  assume "Capacity this < length ys" and "assign_copy env this rhs w = Thrown e w'"
  then show "holds w' this xs" and "holds w' rhs ys"
    using assign_copy_swap_throws [OF assms(1,2)] by simp_all
next
  assume a: "length ys \<le> Capacity this \<and> first_throw env (copies w) (drop (length xs) ys) = None"
  then have "\<exists>this' w'. CopyRhs env this rhs w = Returned this' w' \<and>
           holds w' this' ys \<and> holds w' rhs ys \<and> m_data this' = m_data this \<and>
           ctors w' = ctors w + (length ys - length xs) \<and>
           copies w' = copies w + (length ys - length xs) \<and>
           dtors w' = dtors w + (length xs - length ys)"
    by (intro CopyRhs_returns [OF assms]) simp_all
  moreover have "assign_copy env this rhs w = CopyRhs env this rhs w"
    using a assms(2) by (simp add: assign_copy_def Capacity_def holds_def)
  ultimately show "\<exists>this' w'. assign_copy env this rhs w = Returned this' w' \<and>
               holds w' this' ys \<and> holds w' rhs ys \<and> Size this' = Size rhs \<and>
               m_data this' = m_data this \<and>
               ctors w' = ctors w + (length ys - length xs) \<and>
               copies w' = copies w + (length ys - length xs) \<and>
               dtors w' = dtors w + (length xs - length ys)"
    using assms(2) by (auto simp: holds_def Size_def)
qed

theorem copy_assignment_witness:
  "(\<exists>this' w'. assign_copy int_elem (vector_at 1 1 1) (vector_at 2 2 2)
                 (two_buffers [Live 1] [Live 2, Live 3]) = Returned this' w' \<and>
      holds w' this' [2, 3] \<and> holds w' (vector_at 2 2 2) [2, 3] \<and> Size this' = 2 \<and>
      m_buffer (m_data this') = 3 \<and> Capacity this' = 2 \<and>
      ctors w' = 2 \<and> copies w' = 2 \<and> dtors w' = 1) \<and>
   (\<exists>e w'. assign_copy (throwing_elem 1) (vector_at 1 1 1) (vector_at 2 2 2)
              (two_buffers [Live 1] [Live 2, Live 3]) = Thrown e w' \<and>
      holds w' (vector_at 1 1 1) [1] \<and> holds w' (vector_at 2 2 2) [2, 3]) \<and>
   (\<exists>this' w'. assign_copy int_elem (vector_at 1 3 1) (vector_at 2 2 2)
                 (two_buffers [Live 1, Raw, Raw] [Live 2, Live 3]) = Returned this' w' \<and>
      holds w' this' [2, 3] \<and> holds w' (vector_at 2 2 2) [2, 3] \<and> Size this' = 2 \<and>
      m_data this' = m_data (vector_at 1 3 1) \<and> ctors w' = 1 \<and> copies w' = 1 \<and> dtors w' = 0)"
proof -
  let ?w = "two_buffers [Live 1] [Live 2, Live 3]"
  let ?u = "two_buffers [Live 1, Raw, Raw] [Live 2, Live 3]"
  have t: "holds ?w (vector_at 1 1 1) [1]" and r: "holds ?w (vector_at 2 2 2) [2, 3]"
    and t': "holds ?u (vector_at 1 3 1) [1]" and r': "holds ?u (vector_at 2 2 2) [2, 3]"
    and d: "disjoint (vector_at 1 1 1) (vector_at 2 2 2)"
    and d': "disjoint (vector_at 1 3 1) (vector_at 2 2 2)"
    by (simp_all add: holds_def two_buffers_def vector_at_def disjoint_def eval_nat_numeral)
  have a: "\<exists>this' w'. assign_copy int_elem (vector_at 1 1 1) (vector_at 2 2 2) ?w =
        Returned this' w' \<and>
      holds w' this' [2, 3] \<and> holds w' (vector_at 2 2 2) [2, 3] \<and> Size this' = 2 \<and>
      m_buffer (m_data this') = 3 \<and> Capacity this' = 2 \<and>
      ctors w' = 2 \<and> copies w' = 2 \<and> dtors w' = 1"
    using copy_assignment [OF t r d, of int_elem]
    by (simp add: Capacity_def Size_def vector_at_def int_elem_def two_buffers_def numeral_2_eq_2)
  have "\<exists>e w'. assign_copy (throwing_elem 1) (vector_at 1 1 1) (vector_at 2 2 2) ?w =
      Thrown e w'"
    by (simp add: assign_copy_def Vector_copy_def prims raws examples eval_nat_numeral)
  then obtain e w' where
    th: "assign_copy (throwing_elem 1) (vector_at 1 1 1) (vector_at 2 2 2) ?w = Thrown e w'"
    by blast
  with copy_assignment [OF t r d, of "throwing_elem 1"]
  have "holds w' (vector_at 1 1 1) [1] \<and> holds w' (vector_at 2 2 2) [2, 3]"
    by (simp add: Capacity_def vector_at_def)
  with th have b: "\<exists>e w'. assign_copy (throwing_elem 1) (vector_at 1 1 1) (vector_at 2 2 2) ?w =
      Thrown e w' \<and> holds w' (vector_at 1 1 1) [1] \<and> holds w' (vector_at 2 2 2) [2, 3]"
    by blast
  have c: "\<exists>this' w'. assign_copy int_elem (vector_at 1 3 1) (vector_at 2 2 2) ?u =
        Returned this' w' \<and>
      holds w' this' [2, 3] \<and> holds w' (vector_at 2 2 2) [2, 3] \<and> Size this' = 2 \<and>
      m_data this' = m_data (vector_at 1 3 1) \<and> ctors w' = 1 \<and> copies w' = 1 \<and> dtors w' = 0"
    using copy_assignment [OF t' r' d', of int_elem]
    by (simp add: Capacity_def Size_def vector_at_def int_elem_def two_buffers_def numeral_2_eq_2)
  from a b c show ?thesis by (intro conjI)
qed

section \<open>Move construction and move assignment\<close>

lemma Vector_move_eq:
  "Vector_move other w =
     Returned (\<lparr>m_data = m_data other, m_size = m_size other\<rparr>,
               \<lparr>m_data = \<lparr>m_buffer = 0, m_capacity = 0\<rparr>, m_size = 0\<rparr>) w"
  by (simp add: Vector_move_def RawMemory_move_def)

lemma assign_move_eq: "assign_move this rhs w = Returned (rhs, this) w"
  by (simp add: assign_move_def Swap_def RawMemory_Swap_def)

text \<open>
  C9, as the code has it. Move construction hands the source's buffer and size to the new
  vector and leaves the source empty, with size 0 and no buffer. Move assignment swaps: the
  destination gets the source's buffer and size, and the source gets the destination's, so
  the source is left with the destination's former elements (empty only when the
  destination was empty). Both return (they cannot throw or go wrong) and leave the world
  as it was: no element is constructed, destroyed or copied, and no slot is written.
\<close>

theorem move_transfers_ownership:
  assumes "holds w src xs" and "holds w dst ys"
  shows "(\<exists>d s. Vector_move src w = Returned (d, s) w \<and> holds w d xs \<and> holds w s [] \<and>
               m_size s = 0 \<and> m_data d = m_data src) \<and>
         (\<exists>d s. assign_move dst src w = Returned (d, s) w \<and> holds w d xs \<and> holds w s ys \<and>
               m_data d = m_data src \<and> m_data s = m_data dst)"
  using assms by (simp add: Vector_move_eq assign_move_eq holds_def)

theorem move_transfers_ownership_witness:
  "(\<exists>d s. Vector_move (vector_at 2 2 2) (two_buffers [Live 1] [Live 2, Live 3]) =
             Returned (d, s) (two_buffers [Live 1] [Live 2, Live 3]) \<and>
           holds (two_buffers [Live 1] [Live 2, Live 3]) d [2, 3] \<and>
           holds (two_buffers [Live 1] [Live 2, Live 3]) s [] \<and> m_size s = 0 \<and>
           m_data d = m_data (vector_at 2 2 2)) \<and>
   (\<exists>d s. assign_move (vector_at 1 1 1) (vector_at 2 2 2) (two_buffers [Live 1] [Live 2, Live 3]) =
             Returned (d, s) (two_buffers [Live 1] [Live 2, Live 3]) \<and>
           holds (two_buffers [Live 1] [Live 2, Live 3]) d [2, 3] \<and>
           holds (two_buffers [Live 1] [Live 2, Live 3]) s [1] \<and>
           m_data d = m_data (vector_at 2 2 2) \<and> m_data s = m_data (vector_at 1 1 1))"
proof -
  have src: "holds (two_buffers [Live 1] [Live 2, Live 3]) (vector_at 2 2 2) [2, 3]"
    by (simp add: holds_def two_buffers_def vector_at_def)
  have dst: "holds (two_buffers [Live 1] [Live 2, Live 3]) (vector_at 1 1 1) [1]"
    by (simp add: holds_def two_buffers_def vector_at_def)
  show ?thesis
    using move_transfers_ownership [OF src dst] by simp
qed

text \<open>
  C9 as stated fails for move assignment: assigning the vector \<open>[2, 3]\<close> to the vector
  \<open>[1]\<close> leaves the moved-from source with size 1, holding \<open>[1]\<close>.
\<close>

theorem move_assignment_source_not_empty:
  "assign_move (vector_at 1 1 1) (vector_at 2 2 2) (two_buffers [Live 1] [Live 2, Live 3]) =
     Returned (vector_at 2 2 2, vector_at 1 1 1) (two_buffers [Live 1] [Live 2, Live 3]) \<and>
   holds (two_buffers [Live 1] [Live 2, Live 3]) (vector_at 2 2 2) [2, 3] \<and>
   holds (two_buffers [Live 1] [Live 2, Live 3]) (vector_at 1 1 1) [1] \<and>
   m_size (vector_at 1 1 1) \<noteq> 0"
  by (simp add: assign_move_eq holds_def two_buffers_def vector_at_def)

section \<open>Growth: insertion without spare capacity\<close>

text \<open>
  Every outcome of \<^verbatim>\<open>OffsetRightNewCapacity\<close> on a full vector. It returns exactly when the
  allocation succeeds, constructing the new element does not throw and (for an element type
  that is copied) no copy of an old element throws; the vector then holds the old elements
  with the new one at the position, in a fresh buffer of capacity \<open>max 1 (2 * size)\<close>.
  Otherwise it throws, and the vector holds what it held.
\<close>

lemma OffsetRightNewCapacity_outcome:
  assumes h: "holds w v xs" and full: "\<not> m_size v < Capacity v" and i: "i \<le> length xs"
    and small: "length xs < 2 ^ 63"
  shows "case OffsetRightNewCapacity env (position v i) args v w of
           Returned (off, v') w' \<Rightarrow>
             off = i \<and> holds w' v' (take i xs @ arg_value args # drop i xs) \<and>
             Capacity v' = max 1 (2 * length xs) \<and> m_buffer (m_data v') = next_addr w \<and>
             \<not> new_fails env (max 1 (2 * length xs)) \<and> \<not> arg_throws env (copies w) args \<and>
             (transfer_safe env \<or> first_throw env (copies w + arg_copies args) xs = None) \<and>
             ctors w' = ctors w + length xs + 1 \<and> dtors w' = dtors w + length xs
         | Thrown e w' \<Rightarrow>
             holds w' v xs \<and>
             (new_fails env (max 1 (2 * length xs)) \<or> arg_throws env (copies w) args \<or>
              \<not> transfer_safe env \<and> first_throw env (copies w + arg_copies args) xs \<noteq> None)
         | Undefined \<Rightarrow> False"
proof -
  define a where "a = m_buffer (m_data v)"
  define b where "b = next_addr w"
  define k where "k = max 1 (2 * length xs)"
  define x where "x = arg_value args"
  define f where "f = (if transfer_safe env then moved_from env else (\<lambda>v. v))"
  let ?n = "length xs"
  from h full have sz: "m_size v = ?n" and cap: "m_capacity (m_data v) = ?n"
    and ha: "heap w a = map Live xs" and ab: "a < b" and h0: "heap w 0 = []"
    by (auto simp: holds_def a_def b_def Capacity_def)
  have pos: "position v i = (a, i)"
    by (simp add: position_def Vector_begin_def GetAddress_def ptr_add_def a_def)
  have newcap: "(if m_size v = 0 then 1 else size_mul2 (m_size v)) = k"
    using small by (cases xs) (simp_all add: sz size_mul2_small k_def max_def)
  have ik: "i < k" "?n < k" using i by (cases xs; simp add: k_def)+
  from h full have a0n: "a = 0 \<Longrightarrow> xs = []"
    by (auto simp: holds_def a_def Capacity_def)
  have neq: "a \<noteq> b" using ab by simp
  have b0: "b \<noteq> 0" using ab by simp
  show ?thesis
  proof (cases "new_fails env k")
    case True
    then have "OffsetRightNewCapacity env (position v i) args v w = Thrown bad_alloc w"
      unfolding OffsetRightNewCapacity_def Let_def newcap pos
      using ik by (simp add: raws)
    then show ?thesis using h True by (simp add: k_def)
  next
    case nf: False
    define w1 where "w1 = w\<lparr>heap := (heap w)(b := replicate k Raw), next_addr := b + 1\<rparr>"
    have s1: "RawMemory_ctor env k w = Returned \<lparr>m_buffer = b, m_capacity = k\<rparr> w1"
      using ik nf by (simp add: raws w1_def b_def)
    have w1b: "heap w1 b = replicate i Raw @ Raw # replicate (k - i - 1) Raw"
      using ik replicate_split [of i k "Raw :: 'a slot"]
      by (simp add: w1_def) (metis Suc_diff_Suc Suc_pred diff_Suc_1 replicate_Suc zero_less_diff)
    have s2: "construct env (b, i) args w1 =
     (if arg_throws env (copies w1) args then Thrown copy_failed (w1\<lparr>copies := copies w1 + 1\<rparr>)
      else Returned () (w1\<lparr>heap := (heap w1)(b := replicate i Raw @ Live (arg_value args) #
                             replicate (k - i - 1) Raw),
                          ctors := ctors w1 + 1, copies := copies w1 + arg_copies args\<rparr>))"
      by (rule construct_cases [OF w1b]) simp
    have vend: "Vector_end v = Some (a, ?n)"
      by (simp add: Vector_end_def RawMemory_plus_def sz cap a_def)
    have plus: "RawMemory_plus \<lparr>m_buffer = b, m_capacity = k\<rparr> i = Some (b, i)"
      using ik by (simp add: RawMemory_plus_def)
    have both: "\<And>m1 m2 c1 c2. (if transfer_safe env then and_then m1 m2 else and_then c1 c2) =
        and_then (if transfer_safe env then m1 else c1)
          (\<lambda>u w3. if transfer_safe env then m2 u w3 else c2 u w3)"
      by simp
    have unfold: "OffsetRightNewCapacity env (position v i) args v w =
      and_then
        (on_throw
           (and_then (construct env (b, i) args w1) (\<lambda>_ w2.
              and_then
                (if transfer_safe env then uninitialized_move_n env (a, 0) i (b, 0) w2
                 else uninitialized_copy_n env (a, 0) i (b, 0) w2)
                (\<lambda>_ w3. if transfer_safe env
                   then uninitialized_move_n env (a, i) (?n - i) (b, i + 1) w3
                   else uninitialized_copy_n env (a, i) (?n - i) (b, i + 1) w3)))
           (RawMemory_dtor \<lparr>m_buffer = b, m_capacity = k\<rparr>)) (\<lambda>_ w4.
          and_then (destroy_n (a, 0) ?n w4) (\<lambda>_ w5.
            Returned (i, v\<lparr>m_data := m_data v\<lparr>m_buffer := b, m_capacity := k\<rparr>,
                          m_size := ?n + 1\<rparr>)
              (Deallocate a w5)))"
      unfolding OffsetRightNewCapacity_def Let_def newcap pos
      using small
      by (simp add: s1 vend plus both sz size_inc_small
          RawMemory_dtor_def RawMemory_Swap_def GetAddress_def ptr_add_def a_def [symmetric]
          cong del: if_weak_cong)
    have c1: "copies w1 = copies w" by (simp add: w1_def)
    show ?thesis
    proof (cases "arg_throws env (copies w) args")
      case True
      then have "OffsetRightNewCapacity env (position v i) args v w =
          Thrown copy_failed (Deallocate b (w1\<lparr>copies := copies w1 + 1\<rparr>))"
        by (simp add: unfold s2 c1 RawMemory_dtor_def)
      moreover have "holds (Deallocate b (w1\<lparr>copies := copies w1 + 1\<rparr>)) v xs"
        by (rule holds_frame [OF h]) (use neq b0 h0 in \<open>simp_all add: w1_def a_def b_def\<close>)
      ultimately show ?thesis using True by simp
    next
      case na: False
      define w2 where "w2 = w1\<lparr>heap := (heap w1)(b := replicate i Raw @ Live x #
            replicate (k - i - 1) Raw), ctors := ctors w1 + 1, copies := copies w1 + arg_copies args\<rparr>"
      have s2': "construct env (b, i) args w1 = Returned () w2"
        using s2 na by (simp add: w2_def x_def w1_def)
      have c2: "copies w2 = copies w + arg_copies args" by (simp add: w2_def w1_def)
      have w2a: "heap w2 a = [] @ map Live (take i xs) @ map Live (drop i xs)"
        using ha neq by (simp add: w2_def w1_def flip: map_append)
      have w2b: "heap w2 b = [] @ replicate (length (take i xs)) Raw @
          (Live x # replicate (k - i - 1) Raw)"
        using i by (simp add: w2_def)
      have li: "length (take i xs) = i" using i by simp
      have ld: "length (drop i xs) = ?n - i" by simp
      have t1: "(if transfer_safe env then uninitialized_move_n env (a, 0) i (b, 0) w2
          else uninitialized_copy_n env (a, 0) i (b, 0) w2) =
         (case (if transfer_safe env then None else first_throw env (copies w2) (take i xs)) of
            None \<Rightarrow> Returned ()
              (w2\<lparr>heap := (heap w2)(a := [] @ map Live (map (if transfer_safe env then moved_from env
                     else (\<lambda>v. v)) (take i xs)) @ map Live (drop i xs),
                   b := [] @ map Live (take i xs) @ (Live x # replicate (k - i - 1) Raw)),
                 ctors := ctors w2 + i,
                 copies := copies w2 + (if transfer_safe env then 0 else i)\<rparr>)
          | Some k \<Rightarrow> Thrown copy_failed
              (w2\<lparr>ctors := ctors w2 + k, dtors := dtors w2 + k, copies := copies w2 + k + 1\<rparr>))"
        using transfer_across [OF neq w2a w2b, of 0 0 env] unfolding li by simp
      define ft1 where "ft1 = (if transfer_safe env then None
        else first_throw env (copies w2) (take i xs))"
      have split: "first_throw env (copies w2) xs = None \<longleftrightarrow>
          first_throw env (copies w2) (take i xs) = None \<and>
          first_throw env (copies w2 + i) (drop i xs) = None"
        using first_throw_append_None [of env "copies w2" "take i xs" "drop i xs"] li by simp
      show ?thesis
      proof (cases ft1)
        case (Some j)
        then have nts: "\<not> transfer_safe env" by (auto simp: ft1_def split: if_splits)
        have "OffsetRightNewCapacity env (position v i) args v w = Thrown copy_failed
            (Deallocate b (w2\<lparr>ctors := ctors w2 + j, dtors := dtors w2 + j,
               copies := copies w2 + j + 1\<rparr>))"
          proof -
          have "(if transfer_safe env then uninitialized_move_n env (a, 0) i (b, 0) w2
              else uninitialized_copy_n env (a, 0) i (b, 0) w2) = Thrown copy_failed
              (w2\<lparr>ctors := ctors w2 + j, dtors := dtors w2 + j, copies := copies w2 + j + 1\<rparr>)"
            using t1 Some li by (simp add: ft1_def split del: if_split)
          then show ?thesis
            by (simp add: unfold s2' RawMemory_dtor_def split del: if_split)
        qed
        moreover have "holds (Deallocate b (w2\<lparr>ctors := ctors w2 + j, dtors := dtors w2 + j,
               copies := copies w2 + j + 1\<rparr>)) v xs"
          by (rule holds_frame [OF h])
             (use neq b0 h0 in \<open>simp_all add: w2_def w1_def a_def b_def\<close>)
        moreover have "first_throw env (copies w + arg_copies args) xs \<noteq> None"
          using Some nts split by (simp add: ft1_def c2)
        ultimately show ?thesis using nts by simp
      next
        case None
        define w3 where "w3 = w2\<lparr>heap := (heap w2)(a := [] @ map Live (map f (take i xs)) @
              map Live (drop i xs), b := [] @ map Live (take i xs) @
              (Live x # replicate (k - i - 1) Raw)),
            ctors := ctors w2 + i,
            copies := copies w2 + (if transfer_safe env then 0 else i)\<rparr>"
        have s3: "(if transfer_safe env then uninitialized_move_n env (a, 0) i (b, 0) w2
            else uninitialized_copy_n env (a, 0) i (b, 0) w2) = Returned () w3"
          using t1 None li by (simp add: ft1_def w3_def f_def split del: if_split)
        have w3a: "heap w3 a = map Live (map f (take i xs)) @ map Live (drop i xs) @ []"
          using neq by (simp add: w3_def)
        have cut: "replicate (k - i - 1) (Raw :: 'a slot) =
            replicate (?n - i) Raw @ replicate (k - ?n - 1) Raw"
          using i ik replicate_split [of "?n - i" "k - i - 1" "Raw :: 'a slot"] by simp
        have w3b: "heap w3 b = (map Live (take i xs) @ [Live x]) @
            replicate (length (drop i xs)) Raw @ replicate (k - ?n - 1) Raw"
          using cut by (simp add: w3_def)
        have t2: "(if transfer_safe env
            then uninitialized_move_n env (a, i) (?n - i) (b, i + 1) w3
            else uninitialized_copy_n env (a, i) (?n - i) (b, i + 1) w3) =
         (case (if transfer_safe env then None else first_throw env (copies w3) (drop i xs)) of
            None \<Rightarrow> Returned ()
              (w3\<lparr>heap := (heap w3)(a := map Live (map f (take i xs)) @
                     map Live (map (if transfer_safe env then moved_from env
                     else (\<lambda>v. v)) (drop i xs)) @ [],
                   b := (map Live (take i xs) @ [Live x]) @ map Live (drop i xs) @
                     replicate (k - ?n - 1) Raw),
                 ctors := ctors w3 + (?n - i),
                 copies := copies w3 + (if transfer_safe env then 0 else ?n - i)\<rparr>)
          | Some k \<Rightarrow> Thrown copy_failed
              (w3\<lparr>ctors := ctors w3 + k, dtors := dtors w3 + k, copies := copies w3 + k + 1\<rparr>))"
          using transfer_across [OF neq w3a w3b, of i "i + 1" env] li unfolding ld by simp
        define ft2 where "ft2 = (if transfer_safe env then None
          else first_throw env (copies w3) (drop i xs))"
        have c3: "\<not> transfer_safe env \<Longrightarrow> copies w3 = copies w2 + i"
          using li by (simp add: w3_def)
        show ?thesis
        proof (cases ft2)
          case (Some j)
          then have nts: "\<not> transfer_safe env" by (auto simp: ft2_def split: if_splits)
          have "OffsetRightNewCapacity env (position v i) args v w = Thrown copy_failed
              (Deallocate b (w3\<lparr>ctors := ctors w3 + j, dtors := dtors w3 + j,
                 copies := copies w3 + j + 1\<rparr>))"
            proof -
            have "(if transfer_safe env
                then uninitialized_move_n env (a, i) (?n - i) (b, i + 1) w3
                else uninitialized_copy_n env (a, i) (?n - i) (b, i + 1) w3) = Thrown copy_failed
                (w3\<lparr>ctors := ctors w3 + j, dtors := dtors w3 + j, copies := copies w3 + j + 1\<rparr>)"
              using t2 Some li by (simp add: ft2_def split del: if_split)
            then show ?thesis
              by (simp add: unfold s2' s3 RawMemory_dtor_def split del: if_split)
          qed
          moreover have "holds (Deallocate b (w3\<lparr>ctors := ctors w3 + j, dtors := dtors w3 + j,
                 copies := copies w3 + j + 1\<rparr>)) v xs"
            by (rule holds_frame [OF h])
               (use neq b0 h0 nts ha a0n in
                 \<open>auto simp add: w3_def w2_def w1_def b_def f_def a_def [symmetric]
                    simp flip: map_append\<close>)
          moreover have "first_throw env (copies w + arg_copies args) xs \<noteq> None"
            using Some nts split c3 by (simp add: ft2_def c2)
          ultimately show ?thesis using nts by simp
        next
          case n2: None
          define w4 where "w4 = w3\<lparr>heap := (heap w3)(a := map Live (map f (take i xs)) @
                map Live (map f (drop i xs)) @ [],
                b := (map Live (take i xs) @ [Live x]) @ map Live (drop i xs) @
                  replicate (k - ?n - 1) Raw),
              ctors := ctors w3 + (?n - i),
              copies := copies w3 + (if transfer_safe env then 0 else ?n - i)\<rparr>"
          have s4: "(if transfer_safe env
              then uninitialized_move_n env (a, i) (?n - i) (b, i + 1) w3
              else uninitialized_copy_n env (a, i) (?n - i) (b, i + 1) w3) = Returned () w4"
            using t2 n2 li by (simp add: ft2_def w4_def f_def split del: if_split)
          have w4a: "heap w4 a = [] @ map Live (map f xs) @ []"
            using neq by (simp add: w4_def flip: map_append)
          define w5 where "w5 = w4\<lparr>heap := (heap w4)(a := [] @ replicate (length (map f xs)) Raw @ []),
              dtors := dtors w4 + length (map f xs)\<rparr>"
          have s5: "destroy_n (a, 0) ?n w4 = Returned () w5"
            using destroy_n_live [OF w4a, of 0] by (simp add: w5_def)
          have run: "OffsetRightNewCapacity env (position v i) args v w =
              Returned (i, v\<lparr>m_data := m_data v\<lparr>m_buffer := b, m_capacity := k\<rparr>,
                            m_size := ?n + 1\<rparr>)
                (Deallocate a w5)"
            by (simp add: unfold s2' s3 s4 s5 split del: if_split)
          have hb: "heap (Deallocate a w5) b =
              map Live (take i xs @ x # drop i xs) @ replicate (k - (?n + 1)) Raw"
            using neq by (simp add: w5_def w4_def)
          have h0': "heap (Deallocate a w5) 0 = []"
            using h0 b0 a0n
            by (cases "a = 0") (simp_all add: Deallocate_def w5_def w4_def w3_def w2_def w1_def)
          have "holds (Deallocate a w5) (v\<lparr>m_data := m_data v\<lparr>m_buffer := b, m_capacity := k\<rparr>,
              m_size := ?n + 1\<rparr>) (take i xs @ x # drop i xs)"
            using hb h0' ik i b0
            by (simp add: holds_def) (simp add: w5_def w4_def w3_def w2_def w1_def)
          moreover have "ctors (Deallocate a w5) = ctors w + ?n + 1"
            "dtors (Deallocate a w5) = dtors w + ?n"
            using i by (simp_all add: w5_def w4_def w3_def w2_def w1_def)
          moreover have "transfer_safe env \<or> first_throw env (copies w + arg_copies args) xs = None"
            using None n2 split c3 by (auto simp: ft1_def ft2_def c2 split: if_splits)
          ultimately show ?thesis
            using run nf na by (simp add: Capacity_def k_def x_def b_def)
        qed
      qed
    qed
  qed
qed

lemma size_sub_inc: "size_sub (n + 1) 1 = n"
  by (simp add: size_sub_def)

text \<open>
  Every outcome of the first revision's \<^verbatim>\<open>EmplaceBack\<close>: with spare capacity the new
  element is constructed in place; without, as in \<^verbatim>\<open>OffsetRightNewCapacity\<close>.
\<close>

lemma EmplaceBack_outcome:
  assumes h: "holds w v xs" and small: "length xs < 2 ^ 63"
  shows "case EmplaceBack env args v w of
           Returned (r, v') w' \<Rightarrow>
             r = position v' (length xs) \<and> holds w' v' (xs @ [arg_value args]) \<and>
             \<not> arg_throws env (copies w) args \<and>
             (if length xs < Capacity v
              then m_data v' = m_data v \<and> ctors w' = ctors w + 1 \<and> dtors w' = dtors w
              else Capacity v' = max 1 (2 * length xs) \<and> m_buffer (m_data v') = next_addr w \<and>
                \<not> new_fails env (max 1 (2 * length xs)) \<and>
                (transfer_safe env \<or> first_throw env (copies w + arg_copies args) xs = None) \<and>
                ctors w' = ctors w + length xs + 1 \<and> dtors w' = dtors w + length xs)
         | Thrown e w' \<Rightarrow>
             holds w' v xs \<and>
             (arg_throws env (copies w) args \<or>
              \<not> length xs < Capacity v \<and>
                (new_fails env (max 1 (2 * length xs)) \<or>
                 \<not> transfer_safe env \<and> first_throw env (copies w + arg_copies args) xs \<noteq> None))
         | Undefined \<Rightarrow> False"
proof -
  define a where "a = m_buffer (m_data v)"
  define c where "c = m_capacity (m_data v)"
  define b where "b = next_addr w"
  define k where "k = max 1 (2 * length xs)"
  define x where "x = arg_value args"
  define f where "f = (if transfer_safe env then moved_from env else (\<lambda>v. v))"
  let ?n = "length xs"
  from h have sz: "m_size v = ?n" and nc: "?n \<le> c"
    and ha: "heap w a = map Live xs @ replicate (c - ?n) Raw" and ab: "a < b"
    and h0: "heap w 0 = []" and a0: "(a = 0) = (c = 0)"
    by (auto simp: holds_def a_def b_def c_def)
  have neq: "a \<noteq> b" using ab by simp
  have b0: "b \<noteq> 0" using ab by simp
  show ?thesis
  proof (cases "?n < c")
    case True
    have cut: "replicate (c - ?n) (Raw :: 'a slot) = Raw # replicate (c - ?n - 1) Raw"
      using True by (cases "c - ?n") simp_all
    have ha': "heap w a = map Live xs @ Raw # replicate (c - ?n - 1) Raw"
      using ha cut by simp
    have s1: "construct env (a, ?n) args w =
     (if arg_throws env (copies w) args then Thrown copy_failed (w\<lparr>copies := copies w + 1\<rparr>)
      else Returned () (w\<lparr>heap := (heap w)(a := map Live xs @ Live (arg_value args) #
                             replicate (c - ?n - 1) Raw),
                          ctors := ctors w + 1, copies := copies w + arg_copies args\<rparr>))"
      by (rule construct_cases [OF ha']) simp
    have unfold: "EmplaceBack env args v w =
        and_then (construct env (a, ?n) args w) (\<lambda>_ w1.
          Returned ((a, ?n), v\<lparr>m_size := ?n + 1\<rparr>) w1)"
      using True nc small
      by (simp add: EmplaceBack_def Capacity_def sz RawMemory_plus_def size_inc_small size_sub_def
          a_def [symmetric] c_def [symmetric])
    show ?thesis
    proof (cases "arg_throws env (copies w) args")
      case at: True
      then have "EmplaceBack env args v w = Thrown copy_failed (w\<lparr>copies := copies w + 1\<rparr>)"
        by (simp add: unfold s1)
      moreover have "holds (w\<lparr>copies := copies w + 1\<rparr>) v xs"
        using h by (simp add: holds_def)
      ultimately show ?thesis using at by simp
    next
      case False
      define w1 where "w1 = w\<lparr>heap := (heap w)(a := map Live xs @ Live x #
          replicate (c - ?n - 1) Raw), ctors := ctors w + 1, copies := copies w + arg_copies args\<rparr>"
      have run: "EmplaceBack env args v w = Returned ((a, ?n), v\<lparr>m_size := ?n + 1\<rparr>) w1"
        using False by (simp add: unfold s1 w1_def x_def)
      have "holds w1 (v\<lparr>m_size := ?n + 1\<rparr>) (xs @ [x])"
        using h True a0 by (auto simp: holds_def w1_def a_def c_def)
      moreover have "position (v\<lparr>m_size := ?n + 1\<rparr>) ?n = (a, ?n)"
        by (simp add: position_def Vector_begin_def GetAddress_def ptr_add_def a_def)
      ultimately show ?thesis
        using run False True by (simp add: Capacity_def c_def x_def w1_def)
    qed
  next
    case False
    with nc have cn: "c = ?n" by simp
    have newcap: "(if m_size v = 0 then 1 else size_mul2 (m_size v)) = k"
      using small by (cases xs) (simp_all add: sz size_mul2_small k_def max_def)
    have nk: "?n < k" by (cases xs; simp add: k_def)
    show ?thesis
    proof (cases "new_fails env k")
      case True
      then have "EmplaceBack env args v w = Thrown bad_alloc w"
        unfolding EmplaceBack_def Let_def newcap
        using nk False by (simp add: raws Capacity_def sz c_def)
      then show ?thesis using h True False by (simp add: k_def Capacity_def c_def)
    next
      case nf: False
      define w1 where "w1 = w\<lparr>heap := (heap w)(b := replicate k Raw), next_addr := b + 1\<rparr>"
      have s1: "RawMemory_ctor env k w = Returned \<lparr>m_buffer = b, m_capacity = k\<rparr> w1"
        using nk nf by (simp add: raws w1_def b_def)
      have c1: "copies w1 = copies w" by (simp add: w1_def)
      have w1b: "heap w1 b = replicate ?n Raw @ Raw # replicate (k - ?n - 1) Raw"
        using nk replicate_split [of ?n k "Raw :: 'a slot"]
        by (simp add: w1_def) (metis Suc_diff_Suc Suc_pred diff_Suc_1 replicate_Suc zero_less_diff)
      have s2: "construct env (b, ?n) args w1 =
       (if arg_throws env (copies w1) args then Thrown copy_failed (w1\<lparr>copies := copies w1 + 1\<rparr>)
        else Returned () (w1\<lparr>heap := (heap w1)(b := replicate ?n Raw @ Live (arg_value args) #
                               replicate (k - ?n - 1) Raw),
                            ctors := ctors w1 + 1, copies := copies w1 + arg_copies args\<rparr>))"
        by (rule construct_cases [OF w1b]) simp
      have unfold: "EmplaceBack env args v w =
        and_then
          (on_throw
             (and_then (construct env (b, ?n) args w1) (\<lambda>_ w2.
                if transfer_safe env then uninitialized_move_n env (a, 0) ?n (b, 0) w2
                else uninitialized_copy_n env (a, 0) ?n (b, 0) w2))
             (RawMemory_dtor \<lparr>m_buffer = b, m_capacity = k\<rparr>)) (\<lambda>_ w3.
            and_then (destroy_n (a, 0) ?n w3) (\<lambda>_ w4.
              Returned ((b, ?n), v\<lparr>m_data := m_data v\<lparr>m_buffer := b, m_capacity := k\<rparr>,
                                    m_size := ?n + 1\<rparr>)
                (Deallocate a w4)))"
        unfolding EmplaceBack_def Let_def newcap
        using small False nk
        by (simp add: s1 sz size_inc_small size_sub_def Capacity_def RawMemory_plus_def
            RawMemory_dtor_def RawMemory_Swap_def GetAddress_def a_def [symmetric] c_def [symmetric]
            cong del: if_weak_cong)
      show ?thesis
      proof (cases "arg_throws env (copies w) args")
        case True
        then have "EmplaceBack env args v w =
            Thrown copy_failed (Deallocate b (w1\<lparr>copies := copies w1 + 1\<rparr>))"
          by (simp add: unfold s2 c1 RawMemory_dtor_def)
        moreover have "holds (Deallocate b (w1\<lparr>copies := copies w1 + 1\<rparr>)) v xs"
          by (rule holds_frame [OF h]) (use neq b0 h0 in \<open>simp_all add: w1_def a_def b_def\<close>)
        ultimately show ?thesis using True by simp
      next
        case na: False
        define w2 where "w2 = w1\<lparr>heap := (heap w1)(b := replicate ?n Raw @ Live x #
              replicate (k - ?n - 1) Raw), ctors := ctors w1 + 1,
              copies := copies w1 + arg_copies args\<rparr>"
        have s2': "construct env (b, ?n) args w1 = Returned () w2"
          using s2 na by (simp add: w2_def x_def w1_def)
        have c2: "copies w2 = copies w + arg_copies args" by (simp add: w2_def w1_def)
        have w2a: "heap w2 a = [] @ map Live xs @ []"
          using ha neq cn by (simp add: w2_def w1_def)
        have w2b: "heap w2 b = [] @ replicate (length xs) Raw @
            (Live x # replicate (k - ?n - 1) Raw)"
          by (simp add: w2_def)
        note t1 = transfer_across [OF neq w2a w2b, of 0 0 env]
        show ?thesis
        proof (cases "if transfer_safe env then None else first_throw env (copies w2) xs")
          case (Some j)
          then have nts: "\<not> transfer_safe env" by (auto split: if_splits)
          have "(if transfer_safe env then uninitialized_move_n env (a, 0) ?n (b, 0) w2
              else uninitialized_copy_n env (a, 0) ?n (b, 0) w2) = Thrown copy_failed
              (w2\<lparr>ctors := ctors w2 + j, dtors := dtors w2 + j, copies := copies w2 + j + 1\<rparr>)"
            using t1 Some by (simp split del: if_split)
          then have "EmplaceBack env args v w = Thrown copy_failed
              (Deallocate b (w2\<lparr>ctors := ctors w2 + j, dtors := dtors w2 + j,
                 copies := copies w2 + j + 1\<rparr>))"
            by (simp add: unfold s2' RawMemory_dtor_def split del: if_split)
          moreover have "holds (Deallocate b (w2\<lparr>ctors := ctors w2 + j, dtors := dtors w2 + j,
                 copies := copies w2 + j + 1\<rparr>)) v xs"
            by (rule holds_frame [OF h])
               (use neq b0 h0 in \<open>simp_all add: w2_def w1_def a_def b_def\<close>)
          moreover have "first_throw env (copies w + arg_copies args) xs \<noteq> None"
            using Some nts by (simp add: c2)
          ultimately show ?thesis using nts False by (simp add: Capacity_def c_def)
        next
          case None
          define w3 where "w3 = w2\<lparr>heap := (heap w2)(a := [] @ map Live (map f xs) @ [],
                b := [] @ map Live xs @ (Live x # replicate (k - ?n - 1) Raw)),
              ctors := ctors w2 + ?n,
              copies := copies w2 + (if transfer_safe env then 0 else ?n)\<rparr>"
          have s3: "(if transfer_safe env then uninitialized_move_n env (a, 0) ?n (b, 0) w2
              else uninitialized_copy_n env (a, 0) ?n (b, 0) w2) = Returned () w3"
            using t1 None by (simp add: w3_def f_def split del: if_split)
          have w3a: "heap w3 a = [] @ map Live (map f xs) @ []"
            using neq by (simp add: w3_def)
          define w4 where "w4 = w3\<lparr>heap := (heap w3)(a := [] @ replicate (length (map f xs)) Raw @ []),
              dtors := dtors w3 + length (map f xs)\<rparr>"
          have s4: "destroy_n (a, 0) ?n w3 = Returned () w4"
            using destroy_n_live [OF w3a, of 0] by (simp add: w4_def)
          have run: "EmplaceBack env args v w =
              Returned ((b, ?n), v\<lparr>m_data := m_data v\<lparr>m_buffer := b, m_capacity := k\<rparr>,
                                    m_size := ?n + 1\<rparr>)
                (Deallocate a w4)"
            by (simp add: unfold s2' s3 s4 split del: if_split)
          have hb: "heap (Deallocate a w4) b =
              map Live (xs @ [x]) @ replicate (k - (?n + 1)) Raw"
            using neq by (simp add: w4_def w3_def)
          have a0n: "a = 0 \<Longrightarrow> xs = []" using a0 cn by simp
          have h0': "heap (Deallocate a w4) 0 = []"
            using h0 b0 a0n
            by (cases "a = 0") (simp_all add: Deallocate_def w4_def w3_def w2_def w1_def)
          have "holds (Deallocate a w4) (v\<lparr>m_data := m_data v\<lparr>m_buffer := b, m_capacity := k\<rparr>,
              m_size := ?n + 1\<rparr>) (xs @ [x])"
            using hb h0' nk b0
            by (simp add: holds_def) (simp add: w4_def w3_def w2_def w1_def)
          moreover have "ctors (Deallocate a w4) = ctors w + ?n + 1"
            "dtors (Deallocate a w4) = dtors w + ?n"
            by (simp_all add: w4_def w3_def w2_def w1_def)
          moreover have "transfer_safe env \<or> first_throw env (copies w + arg_copies args) xs = None"
            using None by (auto simp: c2 split: if_splits)
          moreover have "position (v\<lparr>m_data := m_data v\<lparr>m_buffer := b, m_capacity := k\<rparr>,
              m_size := ?n + 1\<rparr>) ?n = (b, ?n)"
            by (simp add: position_def Vector_begin_def GetAddress_def ptr_add_def)
          ultimately show ?thesis
            using run nf na False by (simp add: Capacity_def k_def x_def b_def c_def)
        qed
      qed
    qed
  qed
qed

section \<open>Insertion with spare capacity\<close>

declare move_backward.simps [simp del]

text \<open>Shifting a range of one buffer one slot to the right, into a live slot.\<close>

lemma move_backward_shift:
  "heap w a = pre @ map Live vs @ Live y # post \<Longrightarrow> i = length pre \<Longrightarrow>
   move_backward env (a, i) (a, i + length vs) (a, i + length vs + 1) w =
     Returned () (w\<lparr>heap := (heap w)(a := pre @
        Live (case vs of [] \<Rightarrow> y | u # _ \<Rightarrow> moved_from env u) # map Live vs @ post)\<rparr>)"
proof (induction vs arbitrary: w y post rule: rev_induct)
  case Nil
  then show ?case by (auto intro!: world_eqI simp: fun_eq_iff move_backward.simps)
next
  case (snoc u vs)
  let ?w1 = "w\<lparr>heap := (heap w)(a := pre @ map Live vs @ Live (moved_from env u) # Live u # post)\<rparr>"
  have shape: "heap w a = (pre @ map Live vs) @ Live u # Live y # post"
    using snoc.prems by simp
  have step: "move_assign env (a, i + length vs + 1) (a, i + length vs) w = Returned () ?w1"
    using shape snoc.prems(2)
    by (auto simp: prims nth_append list_update_append intro!: world_eqI simp: fun_eq_iff)
  have rest: "move_backward env (a, i) (a, i + length vs) (a, i + length vs + 1) ?w1 =
     Returned () (?w1\<lparr>heap := (heap ?w1)(a := pre @
        Live (case vs of [] \<Rightarrow> moved_from env u | u # _ \<Rightarrow> moved_from env u) # map Live vs @
        Live u # post)\<rparr>)"
    by (rule snoc.IH) (use snoc.prems in simp_all)
  have "move_backward env (a, i) (a, i + length (vs @ [u])) (a, i + length (vs @ [u]) + 1) w =
        move_backward env (a, i) (a, i + length vs) (a, i + length vs + 1) ?w1"
    using step by (subst move_backward.simps) simp
  also note rest
  finally show ?case
    by (cases vs) (auto intro!: world_eqI simp: fun_eq_iff)
qed


lemma construct_temp_cases:
  "construct_temp env args w =
     (if arg_throws env (copies w) args then Thrown copy_failed (w\<lparr>copies := copies w + 1\<rparr>)
      else Returned (arg_value args)
             (w\<lparr>ctors := ctors w + 1, copies := copies w + arg_copies args\<rparr>))"
  by (cases args) (auto intro!: world_eqI)

text \<open>
  Every outcome of \<^verbatim>\<open>OffsetRight\<close>, which runs with spare capacity and a position before
  the end. For an element type that is moved it returns (unless constructing the temporary
  throws) with the new element at the position and the elements from there on one slot to
  the right. For an element type that is copied it never returns.
\<close>

lemma OffsetRight_outcome:
  assumes h: "holds w v xs" and spare: "length xs < Capacity v" and i: "i < length xs"
    and small: "length xs < 2 ^ 63"
  shows "case OffsetRight env (position v i) args v w of
           Returned v' w' \<Rightarrow>
             transfer_safe env \<and> \<not> arg_throws env (copies w) args \<and>
             holds w' v' (take i xs @ arg_value args # drop i xs) \<and> m_data v' = m_data v \<and>
             ctors w' = ctors w + 2 \<and> dtors w' = dtors w + 1
         | Thrown e w' \<Rightarrow> arg_throws env (copies w) args \<and> holds w' v xs
         | Undefined \<Rightarrow> \<not> transfer_safe env \<and> \<not> arg_throws env (copies w) args"
proof -
  define a where "a = m_buffer (m_data v)"
  define c where "c = m_capacity (m_data v)"
  define x where "x = arg_value args"
  define ys where "ys = butlast xs"
  define z where "z = last xs"
  define raws where "raws = replicate (c - length xs - 1) (Raw :: 'a slot)"
  let ?n = "length xs"
  from i have xs: "xs = ys @ [z]" by (cases xs rule: rev_cases) (simp_all add: ys_def z_def)
  then have ny: "?n = length ys + 1" by simp
  from h spare have sz: "m_size v = ?n" and nc: "?n < c"
    and ha0: "heap w a = map Live xs @ replicate (c - ?n) Raw" and a0: "(a = 0) = (c = 0)"
    by (auto simp: holds_def a_def c_def Capacity_def)
  have cut: "replicate (c - ?n) (Raw :: 'a slot) = Raw # raws"
    using nc by (cases "c - ?n") (simp_all add: raws_def)
  have ha: "heap w a = map Live ys @ Live z # Raw # raws"
    using ha0 cut xs by simp
  have pos: "position v i = (a, i)"
    by (simp add: position_def Vector_begin_def GetAddress_def ptr_add_def a_def)
  have vend: "Vector_end v = Some (a, ?n)"
    using nc by (simp add: Vector_end_def RawMemory_plus_def sz a_def c_def)
  have pend: "ptr_sub (a, ?n) (Suc 0) = Some (a, length ys)"
    using ny by (simp add: ptr_sub_def)
  note ct = construct_temp_cases [of env args w]
  show ?thesis
  proof (cases "arg_throws env (copies w) args")
    case True
    then have "OffsetRight env (position v i) args v w =
        Thrown copy_failed (w\<lparr>copies := copies w + 1\<rparr>)"
      by (simp add: OffsetRight_def ct)
    moreover have "holds (w\<lparr>copies := copies w + 1\<rparr>) v xs"
      using h by (simp add: holds_def)
    ultimately show ?thesis using True by simp
  next
    case na: False
    define w1 where "w1 = w\<lparr>ctors := ctors w + 1, copies := copies w + arg_copies args\<rparr>"
    have s1: "construct_temp env args w = Returned x w1"
      using na by (simp add: ct w1_def x_def)
    have w1a: "heap w1 a = map Live ys @ Live z # Raw # raws"
      using ha by (simp add: w1_def)
    show ?thesis
    proof (cases "transfer_safe env")
      case False
      have "move_assign env (a, ?n) (a, length ys) w1 = Undefined"
        using w1a ny by (simp add: prims nth_append)
      then have "OffsetRight env (position v i) args v w = Undefined"
        using False by (simp add: OffsetRight_def pos s1 vend pend)
      then show ?thesis using False na by simp
    next
      case True
      define w2 where "w2 = w1\<lparr>heap := (heap w1)(a := map Live ys @ Live (moved_from env z) #
          Live z # raws), ctors := ctors w1 + 1\<rparr>"
      have s2: "move_construct env (a, ?n) (a, length ys) w1 = Returned () w2"
        using w1a ny
        by (auto simp: prims nth_append list_update_append w2_def intro!: world_eqI
            simp: fun_eq_iff)
      have iy: "i \<le> length ys" using i ny by simp
      have w2a: "heap w2 a = map Live (take i ys) @ map Live (drop i ys) @
          Live (moved_from env z) # Live z # raws"
        by (simp add: w2_def flip: map_append)
      define y' where "y' = (case drop i ys of [] \<Rightarrow> moved_from env z | u # _ \<Rightarrow> moved_from env u)"
      define w3 where "w3 = w2\<lparr>heap := (heap w2)(a := map Live (take i ys) @ Live y' #
          map Live (drop i ys) @ Live z # raws)\<rparr>"
      have s3: "move_backward env (a, i) (a, length ys) (a, ?n) w2 = Returned () w3"
        using move_backward_shift [OF w2a, of i env] iy ny by (simp add: w3_def y'_def)
      define w4 where "w4 = w3\<lparr>heap := (heap w3)(a := map Live (take i ys) @ Live x #
          map Live (drop i ys) @ Live z # raws)\<rparr>"
      have s4: "assign (a, i) x w3 = Returned () w4"
        using iy
        by (auto simp: prims nth_append list_update_append w3_def w4_def intro!: world_eqI
            simp: fun_eq_iff)
      have run: "OffsetRight env (position v i) args v w =
          Returned (v\<lparr>m_size := ?n + 1\<rparr>) (destroy_temp w4)"
        using True small
        by (simp add: OffsetRight_def pos s1 vend pend s2 s3 s4 sz size_inc_small)
      have ins: "take i xs @ x # drop i xs = take i ys @ x # drop i ys @ [z]"
        using iy xs by simp
      have raws': "raws = replicate (c - (?n + 1)) Raw" by (simp add: raws_def)
      have "heap (destroy_temp w4) a = map Live (take i xs @ x # drop i xs) @
          replicate (c - (?n + 1)) Raw"
        unfolding ins raws' [symmetric]
        by (simp add: destroy_temp_def w4_def)
      moreover have "heap (destroy_temp w4) 0 = []"
        using h a0 nc
        by (cases "a = 0") (simp_all add: destroy_temp_def w4_def w3_def w2_def w1_def holds_def)
      moreover have "next_addr (destroy_temp w4) = next_addr w"
        by (simp add: destroy_temp_def w4_def w3_def w2_def w1_def)
      ultimately have "holds (destroy_temp w4) (v\<lparr>m_size := ?n + 1\<rparr>) (take i xs @ x # drop i xs)"
        using h nc i by (simp add: holds_def a_def c_def)
      moreover have "ctors (destroy_temp w4) = ctors w + 2" "dtors (destroy_temp w4) = dtors w + 1"
        by (simp_all add: destroy_temp_def w4_def w3_def w2_def w1_def)
      ultimately show ?thesis
        using run True na by (simp add: x_def)
    qed
  qed
qed

section \<open>\<^verbatim>\<open>Emplace\<close>\<close>

lemma holds_end: "holds w v xs \<Longrightarrow> Vector_end v = Some (position v (length xs))"
  by (simp add: holds_def Vector_end_def RawMemory_plus_def position_def Vector_begin_def
      GetAddress_def ptr_add_def)

lemma position_eq: "position v i = (m_buffer (m_data v), i)"
  by (simp add: position_def Vector_begin_def GetAddress_def ptr_add_def)

text \<open>
  Every outcome of the first revision's \<^verbatim>\<open>Emplace\<close> at a valid position \<open>i\<close>. Where it
  returns, the result is the position \<open>i\<close> of the vector as it is then, and the vector holds
  the old elements with the new one at \<open>i\<close>. Where it throws, the vector holds what it held.
  It has undefined behaviour exactly for an element type that is copied, with spare capacity
  and a position before the end (unless constructing the temporary throws first).
\<close>

lemma Emplace_outcome:
  assumes h: "holds w v xs" and i: "i \<le> length xs" and small: "length xs < 2 ^ 63"
  shows "case Emplace env (position v i) args v w of
           Returned (p, v') w' \<Rightarrow>
             p = position v' i \<and> holds w' v' (take i xs @ arg_value args # drop i xs) \<and>
             \<not> arg_throws env (copies w) args \<and>
             (if length xs < Capacity v
              then m_data v' = m_data v \<and> (i < length xs \<longrightarrow> transfer_safe env)
              else Capacity v' = max 1 (2 * length xs) \<and> m_buffer (m_data v') = next_addr w \<and>
                \<not> new_fails env (max 1 (2 * length xs)) \<and>
                (transfer_safe env \<or> first_throw env (copies w + arg_copies args) xs = None))
         | Thrown e w' \<Rightarrow>
             holds w' v xs \<and>
             (arg_throws env (copies w) args \<or>
              \<not> length xs < Capacity v \<and>
                (new_fails env (max 1 (2 * length xs)) \<or>
                 \<not> transfer_safe env \<and> first_throw env (copies w + arg_copies args) xs \<noteq> None))
         | Undefined \<Rightarrow>
             \<not> transfer_safe env \<and> length xs < Capacity v \<and> i < length xs \<and>
             \<not> arg_throws env (copies w) args"
proof -
  define a where "a = m_buffer (m_data v)"
  define c where "c = m_capacity (m_data v)"
  let ?n = "length xs"
  from h have sz: "m_size v = ?n" and nc: "?n \<le> c"
    and ha: "heap w a = map Live xs @ replicate (c - ?n) Raw" and a0: "(a = 0) = (c = 0)"
    by (auto simp: holds_def a_def c_def)
  have pos: "position v i = (a, i)" by (simp add: position_eq a_def)
  have vend: "Vector_end v = Some (a, ?n)"
    using holds_end [OF h] by (simp add: position_eq a_def)
  show ?thesis
  proof (cases "?n < c")
    case False
    then have full: "\<not> m_size v < Capacity v" by (simp add: sz Capacity_def c_def)
    note oc = OffsetRightNewCapacity_outcome [OF h full i small, where env = env and args = args]
    have unfold: "Emplace env (position v i) args v w =
        and_then (OffsetRightNewCapacity env (position v i) args v w) (\<lambda>(offset, this1) w1.
          from_option (RawMemory_plus (m_data this1) offset) (\<lambda>r. Returned (r, this1) w1))"
      using full by (simp add: Emplace_def position_eq)
    show ?thesis
    proof (cases "OffsetRightNewCapacity env (position v i) args v w")
      case (Returned r w')
      obtain off v' where r: "r = (off, v')" by (cases r)
      from oc Returned r have o: "off = i" and cap: "Capacity v' = max 1 (2 * ?n)"
        and rest: "holds w' v' (take i xs @ arg_value args # drop i xs)"
          "m_buffer (m_data v') = next_addr w" "\<not> new_fails env (max 1 (2 * ?n))"
          "\<not> arg_throws env (copies w) args"
          "transfer_safe env \<or> first_throw env (copies w + arg_copies args) xs = None"
        by simp_all
      have "RawMemory_plus (m_data v') off = Some (position v' i)"
        using o cap i by (simp add: RawMemory_plus_def Capacity_def position_eq max_def)
      then have "Emplace env (position v i) args v w = Returned (position v' i, v') w'"
        by (simp add: unfold Returned r)
      then show ?thesis using rest cap False by (simp add: Capacity_def c_def)
    next
      case (Thrown e w')
      then have "Emplace env (position v i) args v w = Thrown e w'" by (simp add: unfold)
      then show ?thesis using oc Thrown False by (auto simp: Capacity_def c_def)
    next
      case Undefined
      then show ?thesis using oc by simp
    qed
  next
    case True
    then have spare: "?n < Capacity v" by (simp add: Capacity_def c_def)
    show ?thesis
    proof (cases "i = ?n")
      case False
      with i have il: "i < ?n" by simp
      note oc = OffsetRight_outcome [OF h spare il small, where env = env and args = args]
      have unfold: "Emplace env (position v i) args v w =
          and_then (OffsetRight env (position v i) args v w) (\<lambda>this1 w1.
            Returned (position v i, this1) w1)"
        using spare False by (simp add: Emplace_def vend sz position_eq a_def)
      show ?thesis
      proof (cases "OffsetRight env (position v i) args v w")
        case (Returned v' w')
        then have "Emplace env (position v i) args v w = Returned (position v i, v') w'"
          by (simp add: unfold)
        moreover from oc Returned have "m_data v' = m_data v" by simp
        then have "position v i = position v' i" by (simp add: position_eq)
        ultimately show ?thesis using oc Returned spare by simp
      next
        case (Thrown e w')
        then have "Emplace env (position v i) args v w = Thrown e w'" by (simp add: unfold)
        then show ?thesis using oc Thrown by simp
      next
        case Undefined
        then have "Emplace env (position v i) args v w = Undefined" by (simp add: unfold)
        then show ?thesis using oc Undefined spare il by simp
      qed
    next
      case at_end: True
      have cut: "replicate (c - ?n) (Raw :: 'a slot) = Raw # replicate (c - ?n - 1) Raw"
        using True by (cases "c - ?n") simp_all
      have ha': "heap w a = map Live xs @ Raw # replicate (c - ?n - 1) Raw"
        using ha cut by simp
      have s1: "construct env (a, ?n) args w =
       (if arg_throws env (copies w) args then Thrown copy_failed (w\<lparr>copies := copies w + 1\<rparr>)
        else Returned () (w\<lparr>heap := (heap w)(a := map Live xs @ Live (arg_value args) #
                               replicate (c - ?n - 1) Raw),
                            ctors := ctors w + 1, copies := copies w + arg_copies args\<rparr>))"
        by (rule construct_cases [OF ha']) simp
      have unfold: "Emplace env (position v i) args v w =
          and_then (construct env (a, ?n) args w) (\<lambda>_ w1.
            Returned ((a, ?n), v\<lparr>m_size := ?n + 1\<rparr>) w1)"
        using spare small at_end
        by (simp add: Emplace_def vend sz position_eq a_def size_inc_small)
      show ?thesis
      proof (cases "arg_throws env (copies w) args")
        case at: True
        then have "Emplace env (position v i) args v w =
            Thrown copy_failed (w\<lparr>copies := copies w + 1\<rparr>)"
          by (simp add: unfold s1)
        moreover have "holds (w\<lparr>copies := copies w + 1\<rparr>) v xs"
          using h by (simp add: holds_def)
        ultimately show ?thesis using at by simp
      next
        case False
        define w1 where "w1 = w\<lparr>heap := (heap w)(a := map Live xs @ Live (arg_value args) #
            replicate (c - ?n - 1) Raw), ctors := ctors w + 1,
            copies := copies w + arg_copies args\<rparr>"
        have run: "Emplace env (position v i) args v w =
            Returned ((a, ?n), v\<lparr>m_size := ?n + 1\<rparr>) w1"
          using False by (simp add: unfold s1 w1_def)
        have "holds w1 (v\<lparr>m_size := ?n + 1\<rparr>) (xs @ [arg_value args])"
          using h True a0 by (auto simp: holds_def w1_def a_def c_def)
        moreover have "position (v\<lparr>m_size := ?n + 1\<rparr>) i = (a, ?n)"
          using at_end by (simp add: position_eq a_def)
        ultimately show ?thesis
          using run False spare at_end by simp
      qed
    qed
  qed
qed

text \<open>
  The second revision's \<^verbatim>\<open>Emplace\<close> differs from the first's in what it hands on: the
  helpers get the arguments as lvalues.
\<close>

lemma Emplace2_eq:
  assumes h: "holds w v xs" and i: "i \<le> length xs"
  shows "Emplace2 env (position v i) args v w =
     Emplace env (position v i)
       (if length xs < Capacity v \<and> i = length xs then args else as_lvalue args) v w"
proof -
  from h have sz: "m_size v = length xs" by (simp add: holds_def)
  have vend: "Vector_end v = Some (m_buffer (m_data v), length xs)"
    using holds_end [OF h] by (simp add: position_eq)
  show ?thesis
    using i by (simp add: Emplace2_def Emplace_def vend sz position_eq Capacity_def)
qed

lemma EmplaceBack2_eq:
  assumes h: "holds w v xs"
  shows "EmplaceBack2 env args v w = Emplace env (position v (length xs)) (as_lvalue args) v w"
  using Emplace2_eq [OF h, of "length xs" env "as_lvalue args"]
  by (simp add: EmplaceBack2_def holds_end [OF h] as_lvalue_def)

lemma holds_deref:
  "holds w v xs \<Longrightarrow> i < length xs \<Longrightarrow> deref w (position v i) = Some (xs ! i)"
  by (simp add: holds_def position_eq deref_def cell_def nth_append)

lemma inserted_nth: "i \<le> length xs \<Longrightarrow> (take i xs @ x # drop i xs) ! i = x"
  by (simp add: nth_append)

text \<open>What \<^verbatim>\<open>Emplace\<close> gives back where it returns.\<close>

lemma Emplace_returned:
  assumes h: "holds w v xs" and i: "i \<le> length xs" and small: "length xs < 2 ^ 63"
    and r: "Emplace env (position v i) args v w = Returned (p, v') w'"
  shows "p = position v' i \<and> holds w' v' (take i xs @ arg_value args # drop i xs) \<and>
         deref w' p = Some (arg_value args) \<and>
         Capacity v' = (if length xs < Capacity v then Capacity v else max 1 (2 * length xs))"
proof -
  from Emplace_outcome [OF h i small, where env = env and args = args] r
  have p: "p = position v' i" and h': "holds w' v' (take i xs @ arg_value args # drop i xs)"
    and c: "if length xs < Capacity v then m_data v' = m_data v
            else Capacity v' = max 1 (2 * length xs)"
    by (simp_all split: if_splits)
  from holds_deref [OF h', of i] i have "deref w' p = Some (arg_value args)"
    by (simp add: p inserted_nth)
  moreover from c have "Capacity v' = (if length xs < Capacity v then Capacity v
      else max 1 (2 * length xs))"
    by (simp add: Capacity_def split: if_splits)
  ultimately show ?thesis using p h' by simp
qed

text \<open>When \<^verbatim>\<open>Emplace\<close> returns.\<close>

lemma Emplace_returns:
  assumes h: "holds w v xs" and i: "i \<le> length xs" and small: "length xs < 2 ^ 63"
    and arg: "\<not> arg_throws env (copies w) args"
    and inplace: "length xs < Capacity v \<Longrightarrow> i < length xs \<Longrightarrow> transfer_safe env"
    and grow: "\<not> length xs < Capacity v \<Longrightarrow> \<not> new_fails env (max 1 (2 * length xs)) \<and>
      (transfer_safe env \<or> first_throw env (copies w + arg_copies args) xs = None)"
  shows "\<exists>p v' w'. Emplace env (position v i) args v w = Returned (p, v') w'"
proof (cases "Emplace env (position v i) args v w")
  case (Returned r w')
  then show ?thesis by (cases r) simp
next
  case (Thrown e w')
  with Emplace_outcome [OF h i small, where env = env and args = args] arg grow show ?thesis by auto
next
  case Undefined
  with Emplace_outcome [OF h i small, where env = env and args = args] inplace show ?thesis by auto
qed

lemma EmplaceBack_returned:
  assumes h: "holds w v xs" and small: "length xs < 2 ^ 63"
    and r: "EmplaceBack env args v w = Returned (p, v') w'"
  shows "p = position v' (length xs) \<and> holds w' v' (xs @ [arg_value args]) \<and>
         deref w' p = Some (arg_value args) \<and>
         Capacity v' = (if length xs < Capacity v then Capacity v else max 1 (2 * length xs))"
proof -
  from EmplaceBack_outcome [OF h small, where env = env and args = args] r
  have p: "p = position v' (length xs)" and h': "holds w' v' (xs @ [arg_value args])"
    and c: "if length xs < Capacity v then m_data v' = m_data v
            else Capacity v' = max 1 (2 * length xs)"
    by (simp_all split: if_splits)
  from holds_deref [OF h', of "length xs"] have "deref w' p = Some (arg_value args)"
    by (simp add: p)
  moreover from c have "Capacity v' = (if length xs < Capacity v then Capacity v
      else max 1 (2 * length xs))"
    by (simp add: Capacity_def split: if_splits)
  ultimately show ?thesis using p h' by simp
qed

lemma EmplaceBack_returns:
  assumes h: "holds w v xs" and small: "length xs < 2 ^ 63"
    and arg: "\<not> arg_throws env (copies w) args"
    and grow: "\<not> length xs < Capacity v \<Longrightarrow> \<not> new_fails env (max 1 (2 * length xs)) \<and>
      (transfer_safe env \<or> first_throw env (copies w + arg_copies args) xs = None)"
  shows "\<exists>p v' w'. EmplaceBack env args v w = Returned (p, v') w'"
proof (cases "EmplaceBack env args v w")
  case (Returned r w')
  then show ?thesis by (cases r) simp
next
  case (Thrown e w')
  with EmplaceBack_outcome [OF h small, where env = env and args = args] arg grow show ?thesis by auto
next
  case Undefined
  with EmplaceBack_outcome [OF h small, where env = env and args = args] show ?thesis by auto
qed

section \<open>The value that an append or an insertion returns\<close>

text \<open>
  C10. Where an append or an insertion returns, what it returns designates the new element:
  \<^verbatim>\<open>EmplaceBack\<close> (both revisions; \<^verbatim>\<open>PushBack\<close> calls it) returns the address of the
  element at index \<open>size - 1\<close> of the vector as it is after the call, \<^verbatim>\<open>Emplace\<close> and
  \<^verbatim>\<open>Insert\<close> return \<^verbatim>\<open>begin()\<close> of the vector as it is after the call plus the index of
  the insertion point, and the object there is the new element. The three cases are the
  cases of the outcome lemmas above.
\<close>

theorem returned_value_designates_new_element:
  assumes "holds w v xs" and "length xs < 2 ^ 63" and "i \<le> length xs"
  shows "(\<forall>p v' w'. EmplaceBack env args v w = Returned (p, v') w' \<longrightarrow>
            Size v' = length xs + 1 \<and> p = position v' (Size v' - 1) \<and>
            deref w' p = Some (arg_value args)) \<and>
         (\<forall>p v' w'. EmplaceBack2 env args v w = Returned (p, v') w' \<longrightarrow>
            Size v' = length xs + 1 \<and> p = position v' (Size v' - 1) \<and>
            deref w' p = Some (arg_value args)) \<and>
         (\<forall>p v' w'. Emplace env (position v i) args v w = Returned (p, v') w' \<longrightarrow>
            Size v' = length xs + 1 \<and> p = position v' i \<and> deref w' p = Some (arg_value args)) \<and>
         (\<forall>p v' w'. Insert env (position v i) args v w = Returned (p, v') w' \<longrightarrow>
            Size v' = length xs + 1 \<and> p = position v' i \<and> deref w' p = Some (arg_value args)) \<and>
         (\<forall>p v' w'. Emplace2 env (position v i) args v w = Returned (p, v') w' \<longrightarrow>
            Size v' = length xs + 1 \<and> p = position v' i \<and> deref w' p = Some (arg_value args))"
proof -
  have e: "Size v' = length xs + 1 \<and> p = position v' j \<and> deref w' p = Some (arg_value a)"
    if r: "Emplace env (position v j) a v w = Returned (p, v') w'" and j: "j \<le> length xs"
    for p v' w' j a
  proof -
    note f = Emplace_returned [OF assms(1) j assms(2) r]
    from f have "holds w' v' (take j xs @ arg_value a # drop j xs)" by simp
    then have "m_size v' = length (take j xs @ arg_value a # drop j xs)"
      by (simp only: holds_def)
    then have "Size v' = length xs + 1" using j by (simp add: Size_def)
    with f show ?thesis by blast
  qed
  have b: "Size v' = length xs + 1 \<and> p = position v' (Size v' - 1) \<and>
      deref w' p = Some (arg_value args)"
    if r: "EmplaceBack env args v w = Returned (p, v') w'" for p v' w'
  proof -
    note f = EmplaceBack_returned [OF assms(1,2) r]
    from f have "holds w' v' (xs @ [arg_value args])" by simp
    then have "m_size v' = length (xs @ [arg_value args])"
      by (simp only: holds_def)
    then have sz: "Size v' = length xs + 1" by (simp add: Size_def)
    from f have "p = position v' (length xs)" and "deref w' p = Some (arg_value args)"
      by blast+
    with sz show ?thesis by simp
  qed
  have b2: "Size v' = length xs + 1 \<and> p = position v' (Size v' - 1) \<and>
      deref w' p = Some (arg_value args)"
    if r: "EmplaceBack2 env args v w = Returned (p, v') w'" for p v' w'
  proof -
    from r have "Emplace env (position v (length xs)) (as_lvalue args) v w = Returned (p, v') w'"
      by (simp only: EmplaceBack2_eq [OF assms(1)])
    from e [OF this order_refl] have sz: "Size v' = length xs + 1"
      and "p = position v' (length xs)"
      and "deref w' p = Some (arg_value (as_lvalue args))" by blast+
    moreover have "arg_value (as_lvalue args) = arg_value args"
      by (cases args) (simp_all add: as_lvalue_def)
    ultimately show ?thesis by simp
  qed
  have e2: "Size v' = length xs + 1 \<and> p = position v' i \<and> deref w' p = Some (arg_value args)"
    if r: "Emplace2 env (position v i) args v w = Returned (p, v') w'" for p v' w'
  proof -
    define a where "a = (if length xs < Capacity v \<and> i = length xs then args else as_lvalue args)"
    from r have "Emplace env (position v i) a v w = Returned (p, v') w'"
      by (simp only: Emplace2_eq [OF assms(1,3)] a_def)
    moreover have "arg_value a = arg_value args" by (simp add: a_def as_lvalue_def)
    ultimately show ?thesis using e [where j = i and a = a and p = p] assms(3) by metis
  qed
  show ?thesis
  proof (intro conjI allI impI)
    fix p v' w'
    {
      assume "EmplaceBack env args v w = Returned (p, v') w'"
      from b [OF this] show "Size v' = length xs + 1" "p = position v' (Size v' - 1)"
        "deref w' p = Some (arg_value args)" by blast+
    }
    {
      assume "EmplaceBack2 env args v w = Returned (p, v') w'"
      from b2 [OF this] show "Size v' = length xs + 1" "p = position v' (Size v' - 1)"
        "deref w' p = Some (arg_value args)" by blast+
    }
    {
      assume "Emplace env (position v i) args v w = Returned (p, v') w'"
      from e [OF this assms(3)] show "Size v' = length xs + 1" "p = position v' i"
        "deref w' p = Some (arg_value args)" by blast+
    }
    {
      assume "Insert env (position v i) args v w = Returned (p, v') w'"
      then have "Emplace env (position v i) args v w = Returned (p, v') w'"
        by (simp only: Insert_def)
      from e [OF this assms(3)] show "Size v' = length xs + 1" "p = position v' i"
        "deref w' p = Some (arg_value args)" by blast+
    }
    {
      assume "Emplace2 env (position v i) args v w = Returned (p, v') w'"
      from e2 [OF this] show "Size v' = length xs + 1" "p = position v' i"
        "deref w' p = Some (arg_value args)" by blast+
    }
  qed
qed

theorem returned_value_designates_new_element_witness:
  "(\<exists>p v' w'. EmplaceBack int_elem (Rvalue 4) (vector_at 1 4 3)
                 (one_buffer [Live 1, Live 2, Live 3, Raw]) = Returned (p, v') w' \<and>
      Size v' = 4 \<and> p = position v' (Size v' - 1) \<and> deref w' p = Some 4) \<and>
   (\<exists>p v' w'. Emplace int_elem (position (vector_at 1 4 3) 1) (Lvalue 99) (vector_at 1 4 3)
                 (one_buffer [Live 1, Live 2, Live 3, Raw]) = Returned (p, v') w' \<and>
      Size v' = 4 \<and> p = position v' 1 \<and> deref w' p = Some 99) \<and>
   (\<exists>p v' w'. Emplace (throwing_elem 7) (position (vector_at 1 3 3) 1) (Lvalue 99) (vector_at 1 3 3)
                 (one_buffer [Live 1, Live 2, Live 3]) = Returned (p, v') w' \<and>
      Size v' = 4 \<and> p = position v' 1 \<and> deref w' p = Some 99)"
proof -
  let ?w = "one_buffer [Live 1, Live 2, Live 3, Raw]"
  let ?u = "one_buffer [Live 1, Live 2, Live 3]"
  have h: "holds ?w (vector_at 1 4 3) [1, 2, 3]" by (rule holds_vector_at)
  have h': "holds ?u (vector_at 1 3 3) [1, 2, 3]"
    by (simp add: holds_def one_buffer_def vector_at_def)
  have s: "length [1, 2, 3 :: int] < 2 ^ 63" and i: "1 \<le> length [1, 2, 3 :: int]" by simp_all
  have "\<exists>p v' w'. EmplaceBack int_elem (Rvalue 4) (vector_at 1 4 3) ?w = Returned (p, v') w'"
    by (rule EmplaceBack_returns [OF h s]) (simp_all add: Capacity_def vector_at_def)
  then obtain p v' w' where
    r: "EmplaceBack int_elem (Rvalue 4) (vector_at 1 4 3) ?w = Returned (p, v') w'"
    by blast
  with returned_value_designates_new_element [OF h s i, of int_elem "Rvalue 4"]
  have "Size v' = length [1, 2, 3 :: int] + 1 \<and> p = position v' (Size v' - 1) \<and>
      deref w' p = Some (arg_value (Rvalue 4))"
    by blast
  then have "Size v' = 4 \<and> p = position v' (Size v' - 1) \<and> deref w' p = Some 4"
    by auto
  with r have a: "\<exists>p v' w'. EmplaceBack int_elem (Rvalue 4) (vector_at 1 4 3) ?w =
      Returned (p, v') w' \<and> Size v' = 4 \<and> p = position v' (Size v' - 1) \<and> deref w' p = Some 4"
    by blast
  have "\<exists>p v' w'. Emplace int_elem (position (vector_at 1 4 3) 1) (Lvalue 99) (vector_at 1 4 3) ?w =
      Returned (p, v') w'"
    by (rule Emplace_returns [OF h i s])
       (simp_all add: Capacity_def vector_at_def int_elem_def transfer_safe_def)
  then obtain p v' w' where
    r: "Emplace int_elem (position (vector_at 1 4 3) 1) (Lvalue 99) (vector_at 1 4 3) ?w =
      Returned (p, v') w'"
    by blast
  with returned_value_designates_new_element [OF h s i, of int_elem "Lvalue 99"]
  have "Size v' = length [1, 2, 3 :: int] + 1 \<and> p = position v' 1 \<and>
      deref w' p = Some (arg_value (Lvalue 99))"
    by blast
  then have "Size v' = 4 \<and> p = position v' 1 \<and> deref w' p = Some 99"
    by auto
  with r have b: "\<exists>p v' w'. Emplace int_elem (position (vector_at 1 4 3) 1) (Lvalue 99)
        (vector_at 1 4 3) ?w = Returned (p, v') w' \<and>
      Size v' = 4 \<and> p = position v' 1 \<and> deref w' p = Some 99"
    by blast
  have "\<exists>p v' w'. Emplace (throwing_elem 7) (position (vector_at 1 3 3) 1) (Lvalue 99)
      (vector_at 1 3 3) ?u = Returned (p, v') w'"
    by (rule Emplace_returns [OF h' i s])
       (simp_all add: Capacity_def vector_at_def throwing_elem_def one_buffer_def)
  then obtain p v' w' where
    r: "Emplace (throwing_elem 7) (position (vector_at 1 3 3) 1) (Lvalue 99)
      (vector_at 1 3 3) ?u = Returned (p, v') w'"
    by blast
  with returned_value_designates_new_element [OF h' s i, of "throwing_elem 7" "Lvalue 99"]
  have "Size v' = length [1, 2, 3 :: int] + 1 \<and> p = position v' 1 \<and>
      deref w' p = Some (arg_value (Lvalue 99))"
    by blast
  then have "Size v' = 4 \<and> p = position v' 1 \<and> deref w' p = Some 99"
    by auto
  with r have c: "\<exists>p v' w'. Emplace (throwing_elem 7) (position (vector_at 1 3 3) 1) (Lvalue 99)
        (vector_at 1 3 3) ?u = Returned (p, v') w' \<and>
      Size v' = 4 \<and> p = position v' 1 \<and> deref w' p = Some 99"
    by blast
  from a b c show ?thesis by (intro conjI)
qed


section \<open>\<^verbatim>\<open>Erase\<close>\<close>

text \<open>
  C2 at both revisions. The first revision's loop stops at
  \<^verbatim>\<open>end() - (pos - begin() + 1)\<close>, not at \<^verbatim>\<open>end() - 1\<close>: erasing position 1 of
  \<open>[10, 20, 30]\<close> shifts nothing and leaves \<open>[10, 20]\<close>, where the claim has \<open>[10, 30]\<close>.
  The second revision moves \<^verbatim>\<open>pos - begin() + 1\<close> elements, not the
  \<^verbatim>\<open>end() - pos - 1\<close> that follow \<open>pos\<close>: erasing position 0 of \<open>[1, 99, 2, 3]\<close> moves one
  element and leaves \<open>[99, 99, 2]\<close>, where the claim has \<open>[99, 2, 3]\<close>.
\<close>

theorem Erase_shifts_wrong_range:
  "holds (one_buffer [Live 10, Live 20, Live 30]) (vector_at 1 3 3) [10, 20, 30] \<and>
   (\<exists>p v' w'. Erase int_elem (position (vector_at 1 3 3) 1) (vector_at 1 3 3)
                 (one_buffer [Live 10, Live 20, Live 30]) = Returned (p, v') w' \<and>
               holds w' v' [10, 20]) \<and>
   holds (one_buffer [Live 1, Live 99, Live 2, Live 3]) (vector_at 1 4 4) [1, 99, 2, 3] \<and>
   (\<exists>p v' w'. Erase2 int_elem (position (vector_at 1 4 4) 0) (vector_at 1 4 4)
                 (one_buffer [Live 1, Live 99, Live 2, Live 3]) = Returned (p, v') w' \<and>
               holds w' v' [99, 99, 2])"
  by (simp add: Erase_def Erase2_def prims raws sizes vecs examples holds_def)

theorem Erase_shifts_wrong_range_witness:
  "(\<exists>p v' w'. Erase int_elem (position (vector_at 1 3 3) 1) (vector_at 1 3 3)
                 (one_buffer [Live 10, Live 20, Live 30]) = Returned (p, v') w' \<and>
               holds w' v' [10, 20] \<and> \<not> holds w' v' [10, 30]) \<and>
   (\<exists>p v' w'. Erase2 int_elem (position (vector_at 1 4 4) 0) (vector_at 1 4 4)
                 (one_buffer [Live 1, Live 99, Live 2, Live 3]) = Returned (p, v') w' \<and>
               holds w' v' [99, 99, 2] \<and> \<not> holds w' v' [99, 2, 3])"
  using Erase_shifts_wrong_range by (auto simp: holds_def)

text \<open>
  C4 at \<^verbatim>\<open>Erase\<close>: erasing the last element of the well-formed vector \<open>[1, 2]\<close> (capacity
  2) does not end in a state at all. The first revision's loop starts past its stopping
  point and reads the slot after the buffer; the second revision moves two elements from
  \<^verbatim>\<open>pos + 1\<close>, the first of them from the slot after the buffer.
\<close>

theorem Erase_last_of_two_undefined:
  "holds (one_buffer [Live 1, Live 2]) (vector_at 1 2 2) [1, 2] \<and>
   Erase int_elem (position (vector_at 1 2 2) 1) (vector_at 1 2 2) (one_buffer [Live 1, Live 2]) =
     Undefined \<and>
   Erase2 int_elem (position (vector_at 1 2 2) 1) (vector_at 1 2 2) (one_buffer [Live 1, Live 2]) =
     Undefined"
  by (simp add: Erase_def Erase2_def prims raws sizes vecs examples holds_def)

theorem Erase_last_of_two_undefined_witness:
  "Erase int_elem (position (vector_at 1 2 2) 1) (vector_at 1 2 2) (one_buffer [Live 1, Live 2]) \<noteq>
     Returned (position (vector_at 1 2 2) 1, vector_at 1 2 1) (one_buffer [Live 1, Raw]) \<and>
   Erase2 int_elem (position (vector_at 1 2 2) 1) (vector_at 1 2 2) (one_buffer [Live 1, Live 2]) \<noteq>
     Returned (position (vector_at 1 2 2) 1, vector_at 1 2 1) (one_buffer [Live 1, Raw])"
  using Erase_last_of_two_undefined by simp

section \<open>Insertion where a copy-based transfer meets uninitialised or new storage\<close>

text \<open>
  C5 for an element type that is copied (its move constructor may throw), with spare
  capacity and a position before the end: \<^verbatim>\<open>*(end()) = std::move(*(end() - 1))\<close> assigns
  to the uninitialised slot at \<^verbatim>\<open>end()\<close>, in both revisions. (The branch for element
  types that are moved constructs that slot with \<^verbatim>\<open>std::uninitialized_move_n\<close>.)
\<close>

theorem Insert_in_place_assigns_to_raw_slot:
  "holds (one_buffer [Live 1, Live 2, Live 3, Raw]) (vector_at 1 4 3) [1, 2, 3] \<and>
   Insert (throwing_elem 100) (position (vector_at 1 4 3) 1) (Lvalue 99) (vector_at 1 4 3)
     (one_buffer [Live 1, Live 2, Live 3, Raw]) = Undefined \<and>
   Emplace2 (throwing_elem 100) (position (vector_at 1 4 3) 1) (Lvalue 99) (vector_at 1 4 3)
     (one_buffer [Live 1, Live 2, Live 3, Raw]) = Undefined"
  by (simp add: Insert_def Emplace_def Emplace2_def OffsetRight_def as_lvalue_def
      prims raws sizes vecs examples holds_def transfer_safe_def)

theorem Insert_in_place_assigns_to_raw_slot_witness:
  "\<not> (\<exists>p v' w'. Insert (throwing_elem 100) (position (vector_at 1 4 3) 1) (Lvalue 99) (vector_at 1 4 3)
                   (one_buffer [Live 1, Live 2, Live 3, Raw]) = Returned (p, v') w' \<and>
                 holds w' v' [1, 99, 2, 3])"
  using Insert_in_place_assigns_to_raw_slot by simp

text \<open>
  C1: a full vector \<open>[1, 2]\<close> of an element type that is copied, and the copy constructor
  throws while the elements are transferred to the new buffer. The vector keeps its buffer,
  size, capacity and elements, but the new element, constructed in the new buffer before the
  transfer, is never destroyed: after \<^verbatim>\<open>EmplaceBack\<close> one object was constructed and none
  destroyed. After \<^verbatim>\<open>Emplace\<close> at position 1, where the copy of the suffix throws, the
  new element and the copied prefix are left: two constructed, none destroyed.
\<close>

theorem growth_leaks_on_throw:
  "(\<exists>w'. EmplaceBack (throwing_elem 1) (Lvalue 3) (vector_at 1 2 2) (one_buffer [Live 1, Live 2]) =
            Thrown copy_failed w' \<and>
          holds w' (vector_at 1 2 2) [1, 2] \<and> ctors w' = 1 \<and> dtors w' = 0) \<and>
   (\<exists>w'. Emplace (throwing_elem 2) (position (vector_at 1 2 2) 1) (Lvalue 3) (vector_at 1 2 2)
            (one_buffer [Live 1, Live 2]) = Thrown copy_failed w' \<and>
          holds w' (vector_at 1 2 2) [1, 2] \<and> ctors w' = 2 \<and> dtors w' = 0)"
  by (simp add: EmplaceBack_def Emplace_def OffsetRightNewCapacity_def
      prims raws sizes vecs examples holds_def transfer_safe_def loops_numeral)

theorem growth_leaks_on_throw_witness:
  "\<exists>w'. EmplaceBack (throwing_elem 1) (Lvalue 3) (vector_at 1 2 2) (one_buffer [Live 1, Live 2]) =
           Thrown copy_failed w' \<and> ctors w' \<noteq> dtors w'"
  using growth_leaks_on_throw by auto

section \<open>\<^verbatim>\<open>PopBack\<close>\<close>

text \<open>
  C3 at the first revision's \<^verbatim>\<open>PopBack\<close>, on an empty vector: \<^verbatim>\<open>size_--\<close> wraps to
  \<open>2 ^ 64 - 1\<close>, and \<^verbatim>\<open>end()\<close> is then outside the buffer.
\<close>

theorem PopBack_empty_underflows:
  "size_dec (m_size Vector_default) = 2 ^ 64 - 1 \<and> PopBack Vector_default w = Undefined"
  by (simp add: PopBack_def Vector_default_def RawMemory_default_def size_dec_def SIZE_MAX_def
      Vector_end_def RawMemory_plus_def)

end
